theory Spec2Isabelle
  imports Complex_Main "HOL-Library.Word"
begin

unbundle bit_operations_syntax

section \<open>Values, errors and constants of segypy\<close>

text \<open>
  The module reads a SEG-Y file into a bytes object and decodes it with \<open>struct\<close> and
  numpy; it writes a file by positioned writes of packed bytes. A bytes object is a list of
  8-bit words. The numbers held by numpy arrays are modelled by the values they hold:
  integers as \<open>int\<close>, an IEEE single or double by its bit pattern, the result of the IBM
  conversion (a Python float computed without rounding, see \<open>ibm2ieee\<close>) as a real number.

  The integers the module computes with are Python integers, which are unbounded, and
  numpy integer scalars, which have a type: the header values that \<open>getValue\<close> returns are
  numpy scalars, and arithmetic on them follows the rules of NumPy 2 (NEP 50), see
  \<open>np_binop\<close>. Under NumPy 1 the same expressions are computed in int64.
\<close>

type_synonym byte = "8 word"

text \<open>The keys of \<open>dtype2csize\<close> and \<open>dtype2ctype\<close>, and the name \<open>'ibm'\<close> of the sample table.\<close>

datatype dtype = int32 | uint32 | int16 | uint16 | float32 | double | char | uchar | ibm

text \<open>The \<open>struct\<close> format characters \<open>l L h H f d c B\<close>.\<close>

datatype ctype = fmt_l | fmt_L | fmt_h | fmt_H | fmt_f | fmt_d | fmt_c | fmt_B

text \<open>The element types a numpy array handed to \<open>writeSegy\<close> can have.\<close>

datatype np_dtype =
    np_bool | np_int8 | np_int16 | np_int32 | np_int64
  | np_uint8 | np_uint16 | np_uint32 | np_uint64
  | np_float16 | np_float32 | np_float64 | np_complex64 | np_complex128 | np_object

datatype error =
    ValueError_revno int
  | ValueError_reshape
  | ValueError_negative_dimensions
  | ValueError_nan
  | TypeError_dtype np_dtype
  | TypeError_not_understood dtype
  | KeyError
  | IndexError
  | OverflowError
  | ZeroDivisionError
  | UnicodeEncodeError
  | OSError
  | struct_error

datatype numval =
    IntV int
  | Float32V "32 word"
  | Float64V "64 word"
  | CharV byte
  | RealV real

text \<open>\<open>getValue\<close> returns \<open>Value[0]\<close>, a numpy scalar, for one number and the array otherwise.\<close>

datatype npval = Scalar numval | Array "numval list"

text \<open>
  Conversions between number formats that \<open>struct\<close> and numpy perform in C and that are
  no part of the module: packing, as an IEEE single or double, a number that is not one
  already (a double narrowed to a single, an integer), and storing a number of another
  kind into a numpy array. They are parameters of the model.
\<close>

record float_ops =
  pack_float :: "ctype \<Rightarrow> numval \<Rightarrow> error + byte list"
  np_store_other :: "dtype \<Rightarrow> numval \<Rightarrow> numval"

definition e_bind :: "error + 'a \<Rightarrow> ('a \<Rightarrow> error + 'b) \<Rightarrow> error + 'b" where
  "e_bind m k = (case m of Inl e \<Rightarrow> Inl e | Inr x \<Rightarrow> k x)"

text \<open>\<open>d[k]\<close> on a dictionary raises \<open>KeyError\<close> for a missing key.\<close>

definition getitem :: "('k \<rightharpoonup> 'v) \<Rightarrow> 'k \<Rightarrow> error + 'v" where
  "getitem m k = (case m k of None \<Rightarrow> Inl KeyError | Some v \<Rightarrow> Inr v)"

definition endian_big :: bool where
  "endian_big = True"

section \<open>Python integers and numpy integer scalars\<close>

text \<open>
  The types of the numpy integer scalars that arise: \<open>getValue\<close> returns scalars of the
  integer types of the tables (int16, uint16, int32, uint32), and \<open>np.arange\<close> yields int64.
\<close>

datatype np_int = np_i16 | np_u16 | np_i32 | np_u32 | np_i64

datatype pyint = PyInt int | NpInt np_int int

fun py_value :: "pyint \<Rightarrow> int" where
  "py_value (PyInt v) = v"
| "py_value (NpInt t v) = v"

fun np_lo :: "np_int \<Rightarrow> int" where
  "np_lo np_i16 = - (2 ^ 15)"
| "np_lo np_u16 = 0"
| "np_lo np_i32 = - (2 ^ 31)"
| "np_lo np_u32 = 0"
| "np_lo np_i64 = - (2 ^ 63)"

fun np_hi :: "np_int \<Rightarrow> int" where
  "np_hi np_i16 = 2 ^ 15 - 1"
| "np_hi np_u16 = 2 ^ 16 - 1"
| "np_hi np_i32 = 2 ^ 31 - 1"
| "np_hi np_u32 = 2 ^ 32 - 1"
| "np_hi np_i64 = 2 ^ 63 - 1"

definition np_fits :: "np_int \<Rightarrow> int \<Rightarrow> bool" where
  "np_fits t v = (np_lo t \<le> v \<and> v \<le> np_hi t)"

text \<open>The value that is left of an integer when it is cut to the bits of the type.\<close>

definition np_wrap :: "np_int \<Rightarrow> int \<Rightarrow> int" where
  "np_wrap t v = (v - np_lo t) mod (np_hi t - np_lo t + 1) + np_lo t"

text \<open>The common type of two numpy integer types: the smallest one that holds both.\<close>

fun promote :: "np_int \<Rightarrow> np_int \<Rightarrow> np_int" where
  "promote np_i64 u = np_i64"
| "promote t np_i64 = np_i64"
| "promote np_u32 np_u32 = np_u32"
| "promote np_u32 np_u16 = np_u32"
| "promote np_u16 np_u32 = np_u32"
| "promote np_u32 t = np_i64"
| "promote t np_u32 = np_i64"
| "promote np_i32 t = np_i32"
| "promote t np_i32 = np_i32"
| "promote np_i16 np_i16 = np_i16"
| "promote np_u16 np_u16 = np_u16"
| "promote np_i16 np_u16 = np_i32"
| "promote np_u16 np_i16 = np_i32"

text \<open>
  \<open>a + b\<close>, \<open>a * b\<close> and \<open>a % b\<close> on integers. Two Python integers give a Python integer.
  A numpy scalar and a Python integer give a scalar of the scalar's type: the Python
  integer is converted to that type, which raises \<open>OverflowError\<close> when it is out of range,
  and the result is cut to the type (numpy warns and goes on). Two numpy scalars give a
  scalar of their common type.
\<close>

fun np_binop :: "(int \<Rightarrow> int \<Rightarrow> int) \<Rightarrow> pyint \<Rightarrow> pyint \<Rightarrow> error + pyint" where
  "np_binop f (PyInt a) (PyInt b) = Inr (PyInt (f a b))"
| "np_binop f (NpInt t a) (PyInt b) =
     (if np_fits t b then Inr (NpInt t (np_wrap t (f a b))) else Inl OverflowError)"
| "np_binop f (PyInt a) (NpInt t b) =
     (if np_fits t a then Inr (NpInt t (np_wrap t (f a b))) else Inl OverflowError)"
| "np_binop f (NpInt t a) (NpInt u b) =
     Inr (NpInt (promote t u) (np_wrap (promote t u) (f a b)))"

text \<open>
  \<open>int(a / b)\<close>: the quotient truncated towards zero. For two Python integers a zero
  divisor raises \<open>ZeroDivisionError\<close>. With a numpy scalar the operands are converted as
  above, the quotient is a float64, and a zero divisor gives an infinity or a NaN, which
  \<open>int\<close> refuses with \<open>OverflowError\<close> or \<open>ValueError\<close>. (The quotients the module takes
  have operands below \<open>2^53\<close>, for which the float quotient truncates to the integer
  quotient.)
\<close>

definition int_div :: "int \<Rightarrow> int \<Rightarrow> error + int" where
  "int_div a b = (if b = 0 then Inl ZeroDivisionError else Inr (sgn a * sgn b * (\<bar>a\<bar> div \<bar>b\<bar>)))"

definition np_int_div :: "int \<Rightarrow> int \<Rightarrow> error + int" where
  "np_int_div a b =
     (if b = 0 then (if a = 0 then Inl ValueError_nan else Inl OverflowError)
      else Inr (sgn a * sgn b * (\<bar>a\<bar> div \<bar>b\<bar>)))"

fun int_truediv :: "pyint \<Rightarrow> pyint \<Rightarrow> error + int" where
  "int_truediv (PyInt a) (PyInt b) = int_div a b"
| "int_truediv (NpInt t a) (PyInt b) = (if np_fits t b then np_int_div a b else Inl OverflowError)"
| "int_truediv (PyInt a) (NpInt t b) = (if np_fits t a then np_int_div a b else Inl OverflowError)"
| "int_truediv (NpInt t a) (NpInt u b) = np_int_div a b"

section \<open>The tables\<close>

fun dtype2csize :: "dtype \<Rightarrow> nat option" where
  "dtype2csize int32 = Some 4"
| "dtype2csize uint32 = Some 4"
| "dtype2csize int16 = Some 2"
| "dtype2csize uint16 = Some 2"
| "dtype2csize float32 = Some 4"
| "dtype2csize double = Some 8"
| "dtype2csize char = Some 1"
| "dtype2csize uchar = Some 1"
| "dtype2csize ibm = None"

fun dtype2ctype :: "dtype \<Rightarrow> ctype option" where
  "dtype2ctype int32 = Some fmt_l"
| "dtype2ctype uint32 = Some fmt_L"
| "dtype2ctype int16 = Some fmt_h"
| "dtype2ctype uint16 = Some fmt_H"
| "dtype2ctype float32 = Some fmt_f"
| "dtype2ctype double = Some fmt_d"
| "dtype2ctype char = Some fmt_c"
| "dtype2ctype uchar = Some fmt_B"
| "dtype2ctype ibm = None"

text \<open>
  The type names that numpy understands as the \<open>dtype\<close> of an array: \<open>np.empty\<close> and
  \<open>np.zeros\<close> raise \<open>TypeError\<close> for \<open>'char'\<close>, \<open>'uchar'\<close> and \<open>'ibm'\<close>. The numpy integer
  type of a scalar that \<open>getValue\<close> returns for an integer type of the tables (the other
  types hold no integers).
\<close>

fun np_understood :: "dtype \<Rightarrow> bool" where
  "np_understood char = False"
| "np_understood uchar = False"
| "np_understood ibm = False"
| "np_understood t = True"

fun np_int_of :: "dtype \<Rightarrow> np_int" where
  "np_int_of int16 = np_i16"
| "np_int_of uint16 = np_u16"
| "np_int_of int32 = np_i32"
| "np_int_of uint32 = np_u32"
| "np_int_of t = np_i64"

definition bytes_STFH :: int where "bytes_STFH = 3200"
definition bytes_SBFH :: int where "bytes_SBFH = 400"
definition bytes_SFH :: int where "bytes_SFH = 3600"
definition bytes_STH :: int where "bytes_STH = 240"

definition nspb :: nat where "nspb = 100000000"

section \<open>The header schemata\<close>

text \<open>
  \<open>SH_def\<close>, in declaration order: name, byte position, type and default value. The key
  \<open>"n"\<close> of \<open>Unassigned1\<close> and \<open>Unassigned2\<close> is read by no function of the module and is
  left out.
\<close>

definition SH_def :: "(string \<times> int \<times> dtype \<times> int) list" where
  "SH_def =
   [(''Job'', (3200, int32, 0)),
    (''Line'', (3204, int32, 0)),
    (''Reel'', (3208, int32, 0)),
    (''DataTracePerEnsemble'', (3212, int16, 0)),
    (''AuxiliaryTracePerEnsemble'', (3214, int16, 0)),
    (''dt'', (3216, uint16, 1000)),
    (''dtOrig'', (3218, uint16, 0)),
    (''ns'', (3220, uint16, 0)),
    (''nsOrig'', (3222, uint16, 0)),
    (''DataSampleFormat'', (3224, int16, 5)),
    (''EnsembleFold'', (3226, int16, 0)),
    (''TraceSorting'', (3228, int16, 0)),
    (''VerticalSumCode'', (3230, int16, 0)),
    (''SweepFrequencyEnd'', (3234, int16, 0)),
    (''SweepLength'', (3236, int16, 0)),
    (''SweepType'', (3238, int16, 0)),
    (''SweepChannel'', (3240, int16, 0)),
    (''SweepTaperlengthStart'', (3242, int16, 0)),
    (''SweepTaperLengthEnd'', (3244, int16, 0)),
    (''TaperType'', (3246, int16, 0)),
    (''CorrelatedDataTraces'', (3248, int16, 0)),
    (''BinaryGain'', (3250, int16, 0)),
    (''AmplitudeRecoveryMethod'', (3252, int16, 0)),
    (''MeasurementSystem'', (3254, int16, 0)),
    (''ImpulseSignalPolarity'', (3256, int16, 0)),
    (''VibratoryPolarityCode'', (3258, int16, 0)),
    (''Unassigned1'', (3260, int16, 0)),
    (''SegyFormatRevisionNumber'', (3500, uint16, 100)),
    (''FixedLengthTraceFlag'', (3502, uint16, 0)),
    (''NumberOfExtTextualHeaders'', (3504, uint16, 0)),
    (''Unassigned2'', (3506, int16, 0))]"

text \<open>The tables under \<open>SH_def["DataSampleFormat"]\<close>, by revision and format code.\<close>

definition DataSampleFormat_descr :: "int \<Rightarrow> (int \<times> string) list option" where
  "DataSampleFormat_descr revno =
     (if revno = 0 then
        Some [(1, ''IBM Float''), (2, ''32 bit Integer''), (3, ''16 bit Integer''),
              (8, ''8 bit Integer'')]
      else if revno = 1 then
        Some [(1, ''4-byte IBM floating point''), (2, ''4-byte, two's complement integer''),
              (3, ''2-byte, two's complement integer''),
              (4, ''4-byte, fixed-point with gain (obsolete)''),
              (5, ''4-byte IEEE floating point''), (8, ''1-byte Integer'')]
      else None)"

definition DataSampleFormat_bps :: "int \<Rightarrow> (int \<times> int) list option" where
  "DataSampleFormat_bps revno =
     (if revno = 0 then Some [(1, 4), (2, 4), (3, 2), (8, 1)]
      else if revno = 1 then Some [(1, 4), (2, 4), (3, 2), (5, 4), (8, 1)]
      else None)"

definition DataSampleFormat_datatype :: "int \<Rightarrow> (int \<times> dtype) list option" where
  "DataSampleFormat_datatype revno =
     (if revno = 0 then Some [(1, ibm), (2, int32), (3, int16), (8, uchar)]
      else if revno = 1 then Some [(1, ibm), (2, int32), (3, int16), (5, float32), (8, uchar)]
      else None)"

text \<open>\<open>table[revno][dsf]\<close>: a \<open>KeyError\<close> when either key is missing.\<close>

definition lookup2 :: "(int \<Rightarrow> (int \<times> 'v) list option) \<Rightarrow> int \<Rightarrow> int \<Rightarrow> error + 'v" where
  "lookup2 table revno dsf = e_bind (getitem table revno) (\<lambda>t. getitem (map_of t) dsf)"

text \<open>\<open>STH_def\<close>, in declaration order: name, byte position within the trace header, type.\<close>

definition STH_def :: "(string \<times> int \<times> dtype) list" where
  "STH_def =
   [(''TraceSequenceLine'', (0, int32)),
    (''TraceSequenceFile'', (4, int32)),
    (''FieldRecord'', (8, int32)),
    (''TraceNumber'', (12, int32)),
    (''EnergySourcePoint'', (16, int32)),
    (''cdp'', (20, int32)),
    (''cdpTrace'', (24, int32)),
    (''TraceIdenitifactionCode'', (28, uint16)),
    (''NSummedTraces'', (30, int16)),
    (''NStackedTraces'', (32, int16)),
    (''DataUse'', (34, int16)),
    (''offset'', (36, int32)),
    (''ReceiverGroupElevation'', (40, int32)),
    (''SourceSurfaceElevation'', (44, int32)),
    (''SourceDepth'', (48, int32)),
    (''ReceiverDatumElevation'', (52, int32)),
    (''SourceDatumElevation'', (56, int32)),
    (''SourceWaterDepth'', (60, int32)),
    (''GroupWaterDepth'', (64, int32)),
    (''ElevationScalar'', (68, int16)),
    (''SourceGroupScalar'', (70, int16)),
    (''SourceX'', (72, int32)),
    (''SourceY'', (76, int32)),
    (''GroupX'', (80, int32)),
    (''GroupY'', (84, int32)),
    (''CoordinateUnits'', (88, int16)),
    (''WeatheringVelocity'', (90, int16)),
    (''SubWeatheringVelocity'', (92, int16)),
    (''SourceUpholeTime'', (94, int16)),
    (''GroupUpholeTime'', (96, int16)),
    (''SourceStaticCorrection'', (98, int16)),
    (''GroupStaticCorrection'', (100, int16)),
    (''TotalStaticApplied'', (102, int16)),
    (''LagTimeA'', (104, int16)),
    (''LagTimeB'', (106, int16)),
    (''DelayRecordingTime'', (108, int16)),
    (''MuteTimeStart'', (110, int16)),
    (''MuteTimeEND'', (112, int16)),
    (''ns'', (114, uint16)),
    (''dt'', (116, uint16)),
    (''GainType'', (119, int16)),
    (''InstrumentGainConstant'', (120, int16)),
    (''InstrumentInitialGain'', (122, int16)),
    (''Correlated'', (124, int16)),
    (''SweepFrequenceStart'', (126, int16)),
    (''SweepFrequenceEnd'', (128, int16)),
    (''SweepLength'', (130, int16)),
    (''SweepType'', (132, int16)),
    (''SweepTraceTaperLengthStart'', (134, int16)),
    (''SweepTraceTaperLengthEnd'', (136, int16)),
    (''TaperType'', (138, int16)),
    (''AliasFilterFrequency'', (140, int16)),
    (''AliasFilterSlope'', (142, int16)),
    (''NotchFilterFrequency'', (144, int16)),
    (''NotchFilterSlope'', (146, int16)),
    (''LowCutFrequency'', (148, int16)),
    (''HighCutFrequency'', (150, int16)),
    (''LowCutSlope'', (152, int16)),
    (''HighCutSlope'', (154, int16)),
    (''YearDataRecorded'', (156, int16)),
    (''DayOfYear'', (158, int16)),
    (''HourOfDay'', (160, int16)),
    (''MinuteOfHour'', (162, int16)),
    (''SecondOfMinute'', (164, int16)),
    (''TimeBaseCode'', (166, int16)),
    (''TraceWeightningFactor'', (168, int16)),
    (''GeophoneGroupNumberRoll1'', (170, int16)),
    (''GeophoneGroupNumberFirstTraceOrigField'', (172, int16)),
    (''GeophoneGroupNumberLastTraceOrigField'', (174, int16)),
    (''GapSize'', (176, int16)),
    (''OverTravel'', (178, int16)),
    (''cdpX'', (180, int32)),
    (''cdpY'', (184, int32)),
    (''Inline3D'', (188, int32)),
    (''Crossline3D'', (192, int32)),
    (''ShotPoint'', (192, int32)),
    (''ShotPointScalar'', (200, int16)),
    (''TraceValueMeasurementUnit'', (202, int16)),
    (''TransductionConstantMantissa'', (204, int32)),
    (''TransductionConstantPower'', (208, int16)),
    (''TransductionUnit'', (210, int16)),
    (''TraceIdentifier'', (212, int16)),
    (''ScalarTraceHeader'', (214, int16)),
    (''SourceType'', (216, int16)),
    (''SourceEnergyDirectionMantissa'', (218, int32)),
    (''SourceEnergyDirectionExponent'', (222, int16)),
    (''SourceMeasurementMantissa'', (224, int32)),
    (''SourceMeasurementExponent'', (228, int16)),
    (''SourceMeasurementUnit'', (230, int16)),
    (''UnassignedInt1'', (232, int32)),
    (''UnassignedInt2'', (236, int32))]"


section \<open>Packing and unpacking with \<open>struct\<close>\<close>

text \<open>Big-endian byte strings and the numbers they hold (\<open>endian = '>'\<close>, standard sizes).\<close>

definition be_nat :: "byte list \<Rightarrow> nat" where
  "be_nat bs = foldl (\<lambda>a b. a * 256 + unat b) 0 bs"

fun nat_be :: "nat \<Rightarrow> nat \<Rightarrow> byte list" where
  "nat_be 0 v = []"
| "nat_be (Suc n) v = nat_be n (v div 256) @ [of_nat (v mod 256)]"

definition signed_of :: "nat \<Rightarrow> nat \<Rightarrow> int" where
  "signed_of w n = (if n < 2 ^ (w - 1) then int n else int n - 2 ^ w)"

fun ctype_size :: "ctype \<Rightarrow> nat" where
  "ctype_size fmt_l = 4"
| "ctype_size fmt_L = 4"
| "ctype_size fmt_h = 2"
| "ctype_size fmt_H = 2"
| "ctype_size fmt_f = 4"
| "ctype_size fmt_d = 8"
| "ctype_size fmt_c = 1"
| "ctype_size fmt_B = 1"

text \<open>
  \<open>struct\<close> passes a C float through a C double, both when it unpacks and when it packs
  one. The conversion keeps every bit pattern but that of a signalling NaN (exponent bits
  all set, mantissa not zero, first mantissa bit clear), which it makes quiet by setting the
  first mantissa bit.
\<close>

definition quiet_nan :: "32 word \<Rightarrow> 32 word" where
  "quiet_nan w =
     (if w AND 0x7F800000 = 0x7F800000 \<and> w AND 0x007FFFFF \<noteq> 0 then w OR 0x00400000 else w)"

text \<open>One number out of the bytes of one format character.\<close>

fun unpack1 :: "ctype \<Rightarrow> byte list \<Rightarrow> numval" where
  "unpack1 fmt_l bs = IntV (signed_of 32 (be_nat bs))"
| "unpack1 fmt_L bs = IntV (int (be_nat bs))"
| "unpack1 fmt_h bs = IntV (signed_of 16 (be_nat bs))"
| "unpack1 fmt_H bs = IntV (int (be_nat bs))"
| "unpack1 fmt_f bs = Float32V (quiet_nan (of_nat (be_nat bs)))"
| "unpack1 fmt_d bs = Float64V (of_nat (be_nat bs))"
| "unpack1 fmt_c bs = CharV (of_nat (be_nat bs))"
| "unpack1 fmt_B bs = IntV (int (be_nat bs))"

text \<open>
  \<open>struct.unpack(endian + ctype * n, bs)\<close>: the buffer must have exactly the size the
  format asks for, else \<open>struct.error\<close>.
\<close>

definition struct_unpack :: "ctype \<Rightarrow> nat \<Rightarrow> byte list \<Rightarrow> error + numval list" where
  "struct_unpack ct n bs =
     (if length bs \<noteq> n * ctype_size ct then Inl struct_error
      else Inr (map (\<lambda>i. unpack1 ct (take (ctype_size ct) (drop (i * ctype_size ct) bs))) [0..<n]))"

definition pack_int :: "nat \<Rightarrow> int \<Rightarrow> int \<Rightarrow> int \<Rightarrow> error + byte list" where
  "pack_int n lo hi v =
     (if lo \<le> v \<and> v \<le> hi then Inr (nat_be n (nat (v mod 2 ^ (8 * n)))) else Inl struct_error)"

text \<open>
  \<open>struct.pack(endian + ctype, v)\<close> for one number: an integer format takes an integer
  within its range, \<open>c\<close> takes one byte, \<open>f\<close> and \<open>d\<close> take a number and write it as an IEEE
  single or double.
\<close>

fun struct_pack1 :: "float_ops \<Rightarrow> ctype \<Rightarrow> numval \<Rightarrow> error + byte list" where
  "struct_pack1 fp fmt_l (IntV v) = pack_int 4 (- (2 ^ 31)) (2 ^ 31 - 1) v"
| "struct_pack1 fp fmt_L (IntV v) = pack_int 4 0 (2 ^ 32 - 1) v"
| "struct_pack1 fp fmt_h (IntV v) = pack_int 2 (- (2 ^ 15)) (2 ^ 15 - 1) v"
| "struct_pack1 fp fmt_H (IntV v) = pack_int 2 0 (2 ^ 16 - 1) v"
| "struct_pack1 fp fmt_B (IntV v) = pack_int 1 0 255 v"
| "struct_pack1 fp fmt_f (Float32V w) = Inr (nat_be 4 (unat (quiet_nan w)))"
| "struct_pack1 fp fmt_f v = pack_float fp fmt_f v"
| "struct_pack1 fp fmt_d (Float64V w) = Inr (nat_be 8 (unat w))"
| "struct_pack1 fp fmt_d v = pack_float fp fmt_d v"
| "struct_pack1 fp fmt_c (CharV b) = Inr [b]"
| "struct_pack1 fp ct v = Inl struct_error"

text \<open>\<open>struct.pack(endian + str(n) + ctype, *vs)\<close>: exactly \<open>n\<close> numbers, each packed in turn.\<close>

fun pack_all :: "float_ops \<Rightarrow> ctype \<Rightarrow> numval list \<Rightarrow> error + byte list" where
  "pack_all fp ct [] = Inr []"
| "pack_all fp ct (v # vs) =
     e_bind (struct_pack1 fp ct v) (\<lambda>b. e_bind (pack_all fp ct vs) (\<lambda>bs. Inr (b @ bs)))"

definition struct_pack :: "float_ops \<Rightarrow> ctype \<Rightarrow> int \<Rightarrow> numval list \<Rightarrow> error + byte list" where
  "struct_pack fp ct n vs = (if int (length vs) \<noteq> n then Inl struct_error else pack_all fp ct vs)"

definition packValue :: "float_ops \<Rightarrow> numval \<Rightarrow> dtype \<Rightarrow> error + byte list" where
  "packValue fp v t = e_bind (getitem dtype2ctype t) (\<lambda>ct. struct_pack1 fp ct v)"

text \<open>Python's \<open>xs[i:j]\<close>: a negative index counts from the end, and both are clipped.\<close>

definition slice_index :: "nat \<Rightarrow> int \<Rightarrow> nat" where
  "slice_index n i = (if i < 0 then nat (max 0 (int n + i)) else min n (nat i))"

definition py_slice :: "'a list \<Rightarrow> int \<Rightarrow> int \<Rightarrow> 'a list" where
  "py_slice xs i j =
     take (slice_index (length xs) j - slice_index (length xs) i) (drop (slice_index (length xs) i) xs)"

section \<open>The IBM float conversion\<close>

text \<open>
  \<open>ibm2ieee\<close> is called with a slice of the bytes object. The guard \<open>ibm_float == 0\<close>
  compares a bytes object with an integer and is false for every slice, so the function
  goes on to \<open>struct.unpack('>BBBB', ibm_float)\<close>, which raises \<open>struct.error\<close> unless the
  slice has four bytes. \<open>16**(istic-64)\<close> is an integer for a non-negative exponent and the
  float \<open>1 / 16^k\<close> otherwise; every operation of the function is exact in binary64 (a power
  of two between \<open>2^-256\<close> and \<open>2^252\<close> times a 24-bit integer), so its float result is the
  real number of the same formula.
\<close>

definition pow16 :: "int \<Rightarrow> real" where
  "pow16 e = (if 0 \<le> e then 16 ^ nat e else 1 / 16 ^ nat (- e))"

fun ibm2ieee :: "byte list \<Rightarrow> error + real" where
  "ibm2ieee [istic, a, b, c] =
     (let dividend = (16 :: real) ^ 6;
          sign = (if uint istic \<ge> 128 then - 1 else 1 :: real);
          istic' = (if uint istic \<ge> 128 then uint istic - 128 else uint istic);
          mant = real (unat a * 2 ^ 16) + real (unat b * 2 ^ 8) + real (unat c)
      in Inr (sign * pow16 (istic' - 64) * (mant / dividend)))"
| "ibm2ieee bs = Inl struct_error"

section \<open>\<open>getValue\<close>\<close>

text \<open>
  \<open>np.empty(n, dtype=t)\<close> and \<open>np.zeros(n, dtype=t)\<close>: the type name must be one that numpy
  understands, and the size is not negative.
\<close>

definition np_empty :: "pyint \<Rightarrow> dtype \<Rightarrow> error + unit" where
  "np_empty n t =
     (if \<not> np_understood t then Inl (TypeError_not_understood t)
      else if py_value n < 0 then Inl ValueError_negative_dimensions
      else Inr ())"

definition np_zeros :: "pyint \<Rightarrow> dtype \<Rightarrow> error + unit" where
  "np_zeros n t =
     (if \<not> np_understood t then Inl (TypeError_not_understood t)
      else if py_value n < 0 then Inl ValueError_negative_dimensions
      else Inr ())"

text \<open>
  Storing a number into a numpy array of a given element type: an integer stored into an
  integer array is converted as C converts it (it is kept when it fits); the other
  conversions are parameters.
\<close>

fun np_store :: "float_ops \<Rightarrow> dtype \<Rightarrow> numval \<Rightarrow> numval" where
  "np_store fp int32 (IntV v) = IntV (signed_of 32 (nat (v mod 2 ^ 32)))"
| "np_store fp uint32 (IntV v) = IntV (v mod 2 ^ 32)"
| "np_store fp int16 (IntV v) = IntV (signed_of 16 (nat (v mod 2 ^ 16)))"
| "np_store fp uint16 (IntV v) = IntV (v mod 2 ^ 16)"
| "np_store fp t v = np_store_other fp t v"

text \<open>
  The loop of the IBM branch: \<open>i\<close> runs over \<open>np.arange(number)\<close>, an int64 array, so
  \<open>index_ibm\<close> is an int64 scalar.
\<close>

definition IBM_values :: "float_ops \<Rightarrow> byte list \<Rightarrow> pyint \<Rightarrow> nat list \<Rightarrow> error + numval list" where
  "IBM_values fp data index is =
     foldr (\<lambda>i rest.
        e_bind (np_binop (*) (NpInt np_i64 (int i)) (PyInt 4)) (\<lambda>i4.
        e_bind (np_binop (+) i4 index) (\<lambda>index_ibm.
        e_bind (np_binop (+) index_ibm (PyInt 4)) (\<lambda>index_end.
        e_bind (ibm2ieee (py_slice data (py_value index_ibm) (py_value index_end)))
          (\<lambda>r. e_bind rest (\<lambda>vs. Inr (np_store fp float32 (RealV r) # vs)))))))
       is (Inr [])"

text \<open>
  The block loop of \<open>getValue\<close>: block \<open>i\<close> holds \<open>nspb\<close> numbers, the last one
  \<open>number % nspb\<close>, and \<open>Value[si1:si2]\<close> receives what \<open>struct.unpack\<close> returns for the
  bytes \<open>data[bi1:bi2]\<close>. The blocks are adjacent, so the array is their concatenation.
\<close>

fun unpack_blocks ::
  "byte list \<Rightarrow> pyint \<Rightarrow> ctype \<Rightarrow> nat \<Rightarrow> pyint \<Rightarrow> int \<Rightarrow> nat list \<Rightarrow> error + numval list" where
  "unpack_blocks data index ct csize number nblock [] = Inr []"
| "unpack_blocks data index ct csize number nblock (i # is) =
     e_bind (if int i = nblock - 1 then np_binop (\<lambda>a b. a mod b) number (PyInt (int nspb))
             else Inr (PyInt (int nspb))) (\<lambda>ns.
     let si1 = int (nspb * i) in
     e_bind (np_binop (+) (PyInt si1) ns) (\<lambda>si2.
     e_bind (np_binop (+) index (PyInt (si1 * int csize))) (\<lambda>bi1.
     e_bind (np_binop (*) ns (PyInt (int csize))) (\<lambda>nc.
     e_bind (np_binop (+) bi1 nc) (\<lambda>bi2.
     e_bind (struct_unpack ct (nat (py_value ns)) (py_slice data (py_value bi1) (py_value bi2)))
       (\<lambda>vals. e_bind (unpack_blocks data index ct csize number nblock is)
          (\<lambda>rest. Inr (vals @ rest))))))))"

definition getValue :: "float_ops \<Rightarrow> byte list \<Rightarrow> pyint \<Rightarrow> dtype \<Rightarrow> pyint \<Rightarrow> error + npval" where
  "getValue fp data index t number =
     e_bind
       (if t = ibm then
          e_bind (np_empty number float32) (\<lambda>_.
            IBM_values fp data index [0..<nat (py_value number)])
        else
          e_bind (getitem dtype2ctype t) (\<lambda>ct.
          e_bind (getitem dtype2csize t) (\<lambda>csize.
          e_bind (np_empty number t) (\<lambda>_.
          e_bind (int_truediv number (PyInt (int nspb))) (\<lambda>q.
            let nblock = q + 1 in
            unpack_blocks data index ct csize number nblock [0..<nat nblock])))))
       (\<lambda>Value. if py_value number = 1 then Inr (Scalar (Value ! 0)) else Inr (Array Value))"

section \<open>Revision number and bytes per sample\<close>

text \<open>
  The header dictionary \<open>SH\<close> maps the names of the fields to integers: numpy scalars when
  \<open>getSegyHeader\<close> has read them, Python integers when the write path has set them.
\<close>

type_synonym header = "string \<rightharpoonup> pyint"

definition getRevisionNumber :: "header \<Rightarrow> error + int" where
  "getRevisionNumber SH =
     e_bind (getitem SH ''SegyFormatRevisionNumber'') (\<lambda>revno.
       if py_value revno = 0 then Inr 1
       else if py_value revno = 100 then Inr 1
       else if py_value revno = 1 then Inr 1
       else if py_value revno = 256 then Inr 1
       else Inl (ValueError_revno (py_value revno)))"

definition getBytePerSample :: "header \<Rightarrow> error + int" where
  "getBytePerSample SH =
     e_bind (getRevisionNumber SH) (\<lambda>revno.
     e_bind (getitem SH ''DataSampleFormat'') (\<lambda>dsf.
       lookup2 DataSampleFormat_bps revno (py_value dsf)))"

section \<open>Reading the file header\<close>

text \<open>
  With one number asked for, \<open>getValue\<close> returns a scalar; every field of \<open>SH_def\<close> has an
  integer type, so the header dictionary holds numpy integer scalars of the types of the
  fields.
\<close>

fun the_scalar :: "npval \<Rightarrow> numval" where
  "the_scalar (Scalar x) = x"
| "the_scalar (Array xs) = xs ! 0"

fun int_value :: "numval \<Rightarrow> int" where
  "int_value (IntV v) = v"
| "int_value x = 0"

fun read_fields ::
  "float_ops \<Rightarrow> byte list \<Rightarrow> (string \<times> int \<times> dtype \<times> int) list \<Rightarrow> header \<Rightarrow> error + header" where
  "read_fields fp data [] SH = Inr SH"
| "read_fields fp data ((key, pos, fmt, dflt) # rest) SH =
     e_bind (getValue fp data (PyInt pos) fmt (PyInt 1))
       (\<lambda>v. read_fields fp data rest (SH(key \<mapsto> NpInt (np_int_of fmt) (int_value (the_scalar v)))))"

text \<open>
  \<open>getSegyHeader\<close>, from the bytes the file holds. The entry \<open>'filename'\<close>, the only one
  that is not a number, is read by no function and is left out. \<open>SH['ns']\<close> is a uint16
  scalar, and so is \<open>traceByteSize\<close>; the length of the data in the quotient is a Python
  integer, which must fit into a uint16.
\<close>

definition getSegyHeader :: "float_ops \<Rightarrow> byte list \<Rightarrow> error + header" where
  "getSegyHeader fp data =
     e_bind (read_fields fp data SH_def Map.empty) (\<lambda>SH.
     e_bind (getBytePerSample SH) (\<lambda>bps.
     e_bind (getitem SH ''ns'') (\<lambda>ns.
     e_bind (np_binop (*) ns (PyInt bps)) (\<lambda>nsbps.
     e_bind (np_binop (+) (PyInt bytes_STH) nsbps) (\<lambda>traceByteSize.
       let filesize = int (length data) in
       e_bind (int_truediv (PyInt (filesize - bytes_SFH)) traceByteSize)
         (\<lambda>ntraces. Inr (SH(''ntraces'' \<mapsto> PyInt ntraces))))))))"

section \<open>Reading the trace headers\<close>

fun num_is_zero :: "numval \<Rightarrow> bool" where
  "num_is_zero (IntV v) = (v = 0)"
| "num_is_zero (Float32V w) = (w = 0 \<or> w = 0x80000000)"
| "num_is_zero (Float64V w) = (w = 0 \<or> w = 0x8000000000000000)"
| "num_is_zero (CharV b) = False"
| "num_is_zero (RealV r) = (r = 0)"

text \<open>
  The loop over the traces: \<open>pos = bytes_SFH + traceByteSize * itrace + TH_pos\<close>, where
  \<open>traceByteSize\<close> is the scalar computed from \<open>SH['ns']\<close>.
\<close>

fun read_traces ::
  "float_ops \<Rightarrow> byte list \<Rightarrow> pyint \<Rightarrow> int \<Rightarrow> dtype \<Rightarrow> nat list \<Rightarrow> error + numval list" where
  "read_traces fp data traceByteSize TH_pos TH_format [] = Inr []"
| "read_traces fp data traceByteSize TH_pos TH_format (itrace # rest) =
     e_bind (np_binop (*) traceByteSize (PyInt (int itrace))) (\<lambda>a.
     e_bind (np_binop (+) (PyInt bytes_SFH) a) (\<lambda>b.
     e_bind (np_binop (+) b (PyInt TH_pos)) (\<lambda>pos.
     e_bind (getValue fp data pos TH_format (PyInt 1))
       (\<lambda>v. e_bind (read_traces fp data traceByteSize TH_pos TH_format rest)
          (\<lambda>vs. Inr (the_scalar v # vs))))))"

text \<open>
  \<open>TH_value[:] = SH["dt"]\<close>: a numpy scalar is converted to the element type of the
  array; a Python integer must fit into an integer element type.
\<close>

fun int_dtype :: "dtype \<Rightarrow> bool" where
  "int_dtype int16 = True"
| "int_dtype uint16 = True"
| "int_dtype int32 = True"
| "int_dtype uint32 = True"
| "int_dtype t = False"

fun np_fill :: "float_ops \<Rightarrow> dtype \<Rightarrow> pyint \<Rightarrow> error + numval" where
  "np_fill fp t (PyInt v) =
     (if int_dtype t \<and> \<not> np_fits (np_int_of t) v then Inl OverflowError
      else Inr (np_store fp t (IntV v)))"
| "np_fill fp t (NpInt k v) = Inr (np_store fp t (IntV v))"

text \<open>
  \<open>getSegyTraceHeader\<close>. With \<open>itrace = 0\<close> the result is an array with one value per
  trace, otherwise the scalar \<open>getValue\<close> returns. For the field \<open>dt\<close> the code then
  evaluates \<open>TH_value[0]\<close>: an \<open>IndexError\<close> on a scalar and on an empty array.
\<close>

definition getSegyTraceHeader ::
  "float_ops \<Rightarrow> header \<Rightarrow> byte list \<Rightarrow> string \<Rightarrow> (string \<times> int \<times> dtype) list option
     \<Rightarrow> int \<Rightarrow> error + npval" where
  "getSegyTraceHeader fp SH data TH_name TH_dict itrace =
     e_bind (getitem (map_of (case TH_dict of None \<Rightarrow> STH_def | Some d \<Rightarrow> d)) TH_name)
       (\<lambda>(TH_pos, TH_format).
     e_bind (getitem SH ''ntraces'') (\<lambda>ntraces.
     e_bind (getitem SH ''ns'') (\<lambda>ns.
     e_bind (getBytePerSample SH) (\<lambda>bps.
     e_bind (np_binop (*) ns (PyInt bps)) (\<lambda>nsbps.
     e_bind (np_binop (+) (PyInt bytes_STH) nsbps) (\<lambda>traceByteSize.
       e_bind
         (if itrace = 0 then
            e_bind (np_zeros ntraces TH_format) (\<lambda>_.
            e_bind (read_traces fp data traceByteSize TH_pos TH_format [0..<nat (py_value ntraces)])
              (\<lambda>vs. Inr (Array vs)))
          else
            e_bind (np_binop (*) traceByteSize (PyInt (itrace - 1))) (\<lambda>a.
            e_bind (np_binop (+) (PyInt bytes_SFH) a) (\<lambda>b.
            e_bind (np_binop (+) b (PyInt TH_pos)) (\<lambda>pos.
              getValue fp data pos TH_format (PyInt 1)))))
         (\<lambda>TH_value.
            if TH_name = ''dt'' then
              (case TH_value of
                 Scalar x \<Rightarrow> Inl IndexError
               | Array [] \<Rightarrow> Inl IndexError
               | Array (x # xs) \<Rightarrow>
                   if num_is_zero x then
                     e_bind (getitem SH ''dt'') (\<lambda>dt.
                     e_bind (np_fill fp TH_format dt) (\<lambda>v.
                       Inr (Array (map (\<lambda>_. v) (x # xs)))))
                   else Inr TH_value)
            else Inr TH_value)))))))"

fun read_headers ::
  "float_ops \<Rightarrow> header \<Rightarrow> byte list \<Rightarrow> (string \<times> int \<times> dtype) list \<Rightarrow> int
     \<Rightarrow> string list \<Rightarrow> error + (string \<times> npval) list" where
  "read_headers fp SH data TH_read itrace [] = Inr []"
| "read_headers fp SH data TH_read itrace (key # rest) =
     e_bind (getSegyTraceHeader fp SH data key (Some TH_read) itrace)
       (\<lambda>TH_value. e_bind (read_headers fp SH data TH_read itrace rest)
          (\<lambda>hs. Inr ((key, TH_value) # hs)))"

text \<open>The dictionary \<open>SegyTraceHeaders\<close>, as the list of its items in the order of the schema.\<close>

definition getSegyTraceHeaders ::
  "float_ops \<Rightarrow> header \<Rightarrow> byte list \<Rightarrow> (string \<times> int \<times> dtype) list option \<Rightarrow> int
     \<Rightarrow> error + (string \<times> npval) list" where
  "getSegyTraceHeaders fp SH data TH_dict itrace =
     (let TH_read = (case TH_dict of None \<Rightarrow> STH_def | Some d \<Rightarrow> d)
      in read_headers fp SH data TH_read itrace (map fst TH_read))"

section \<open>Reading the samples\<close>

text \<open>
  \<open>np.reshape(Data, (r, c))\<close> raises \<open>ValueError\<close> unless \<open>Data\<close> has \<open>r * c\<close> elements.
  (A dimension \<open>-1\<close> would be inferred by numpy; \<open>readSegy\<close> passes none.)
\<close>

definition np_reshape :: "npval \<Rightarrow> int \<Rightarrow> int \<Rightarrow> error + numval list list" where
  "np_reshape v r c =
     (let flat = (case v of Scalar x \<Rightarrow> [x] | Array xs \<Rightarrow> xs) in
      if r < 0 \<or> c < 0 \<or> int (length flat) \<noteq> r * c then Inl ValueError_reshape
      else Inr (map (\<lambda>i. take (nat c) (drop (i * nat c) flat)) [0..<nat r]))"

text \<open>\<open>Data[Data > 128] -= 256\<close>, on one element of an array of integers.\<close>

fun sub_256_above_128 :: "numval \<Rightarrow> numval" where
  "sub_256_above_128 (IntV v) = IntV (if v > 128 then v - 256 else v)"
| "sub_256_above_128 x = x"

text \<open>
  \<open>readSegy\<close> returns \<open>(SH, SegyTraceHeaders)\<close> when \<open>TH_only\<close> and
  \<open>(Data, SH, SegyTraceHeaders)\<close> otherwise; \<open>Data\<close> is the list of its rows, one per trace.
\<close>

definition readSegy ::
  "float_ops \<Rightarrow> byte list \<Rightarrow> (string \<times> int \<times> dtype) list option \<Rightarrow> bool
     \<Rightarrow> error + (numval list list option \<times> header \<times> (string \<times> npval) list)" where
  "readSegy fp data TH_dict TH_only =
     e_bind (getSegyHeader fp data) (\<lambda>SH.
     e_bind (getSegyTraceHeaders fp SH data TH_dict 0) (\<lambda>SegyTraceHeaders.
       if TH_only then Inr (None, SH, SegyTraceHeaders)
       else
         e_bind (getBytePerSample SH) (\<lambda>bps.
         e_bind (int_div bytes_STH bps) (\<lambda>ndummy_samples.
         let index = bytes_SFH;
             filesize = int (length data)
         in
         e_bind (int_div (filesize - bytes_SFH) bps) (\<lambda>nd.
         e_bind (getRevisionNumber SH) (\<lambda>revno.
         e_bind (getitem SH ''DataSampleFormat'') (\<lambda>dsf.
         e_bind (lookup2 DataSampleFormat_descr revno (py_value dsf)) (\<lambda>DataDescr.
         e_bind (lookup2 DataSampleFormat_datatype revno (py_value dsf)) (\<lambda>dtype.
         e_bind (getValue fp data (PyInt index) dtype (PyInt nd)) (\<lambda>Data.
         e_bind (getitem SH ''ntraces'') (\<lambda>ntraces.
         e_bind (getitem SH ''ns'') (\<lambda>ns.
         e_bind (np_binop (+) ns (PyInt ndummy_samples)) (\<lambda>nsDummyTrace.
         e_bind (np_reshape Data (py_value ntraces) (py_value nsDummyTrace)) (\<lambda>Data.
         let Data = map (\<lambda>row. py_slice row ndummy_samples (py_value nsDummyTrace)) Data;
             Data = (if py_value dsf = 8 then map (map sub_256_above_128) Data else Data)
         in Inr (Some Data, SH, SegyTraceHeaders)))))))))))))))"

definition readSegyTrace ::
  "float_ops \<Rightarrow> byte list \<Rightarrow> (string \<times> int \<times> dtype) list option \<Rightarrow> int
     \<Rightarrow> error + ((string \<times> npval) list \<times> npval)" where
  "readSegyTrace fp data TH_dict itrace =
     e_bind (getSegyHeader fp data) (\<lambda>SH.
     e_bind (getSegyTraceHeaders fp SH data TH_dict itrace) (\<lambda>SegyTraceHeaders.
     e_bind (getBytePerSample SH) (\<lambda>bps.
     e_bind (getitem SH ''ns'') (\<lambda>ns.
     e_bind (np_binop (*) ns (PyInt bps)) (\<lambda>nsbps.
     e_bind (np_binop (+) (PyInt bytes_STH) nsbps) (\<lambda>bytesTrace.
     e_bind (np_binop (*) (PyInt (itrace - 1)) bytesTrace) (\<lambda>a.
     e_bind (np_binop (+) (PyInt bytes_SFH) a) (\<lambda>b.
     e_bind (np_binop (+) b (PyInt bytes_STH)) (\<lambda>index.
     e_bind (getRevisionNumber SH) (\<lambda>revno.
     e_bind (getitem SH ''DataSampleFormat'') (\<lambda>dsf.
     e_bind (lookup2 DataSampleFormat_datatype revno (py_value dsf)) (\<lambda>dtype.
     e_bind (getValue fp data index dtype ns) (\<lambda>SegyTraceData.
       Inr (SegyTraceHeaders, SegyTraceData))))))))))))))"

section \<open>Preparing the headers for writing\<close>

text \<open>
  The array \<open>writeSegy\<close> is given: its element type, its shape (\<open>ns, ntraces = Data.shape\<close>)
  and its rows, one per sample index, each with one element per trace.
\<close>

record grid =
  elem_type :: np_dtype
  shape :: "nat \<times> nat"
  rows :: "numval list list"

definition getDefaultSegyHeader :: header where
  "getDefaultSegyHeader = map_of (map (\<lambda>(key, pos, t, dflt). (key, PyInt dflt)) SH_def)"

text \<open>
  \<open>getDSF_fromDataType\<close>, on the element type of the array; the result holds the warnings
  issued and the format code. The cast of a float64 array rebinds the local name only.
\<close>

definition getDSF_fromDataType :: "np_dtype \<Rightarrow> error + (string list \<times> int)" where
  "getDSF_fromDataType t =
     (let (warnings, t') =
        (if t = np_float64 then ([''Cast data type float64 to float32.''], np_float32)
         else ([], t))
      in if t' = np_int32 then Inr (warnings, 2)
         else if t' = np_int16 then Inr (warnings, 3)
         else if t' = np_float32 then Inr (warnings, 5)
         else if t' = np_int8 then Inr (warnings, 8)
         else Inl (TypeError_dtype t'))"

text \<open>\<open>setSegyHeaders\<close> stores \<open>int(ntraces)\<close>, \<open>int(ns)\<close> and \<open>int(dt)\<close>, Python integers.\<close>

definition setSegyHeaders ::
  "header \<Rightarrow> int option \<Rightarrow> int option \<Rightarrow> int option \<Rightarrow> int option \<Rightarrow> header" where
  "setSegyHeaders SH ntraces ns dt dsf =
     (let SH = (case ntraces of None \<Rightarrow> SH | Some v \<Rightarrow> SH(''ntraces'' \<mapsto> PyInt v));
          SH = (case ns of None \<Rightarrow> SH | Some v \<Rightarrow> SH(''ns'' \<mapsto> PyInt v));
          SH = (case dt of None \<Rightarrow> SH | Some v \<Rightarrow> SH(''dt'' \<mapsto> PyInt v));
          SH = (case dsf of None \<Rightarrow> SH | Some v \<Rightarrow> SH(''DataSampleFormat'' \<mapsto> PyInt v))
      in SH)"

text \<open>
  \<open>STH[key][a] = v\<close> on the \<open>int32\<close> arrays of \<open>setSegyTraceHeaders\<close>: numpy raises
  \<open>OverflowError\<close> for a Python integer outside the range of the element type.
\<close>

definition int32_setitem :: "int list \<Rightarrow> nat \<Rightarrow> int \<Rightarrow> error + int list" where
  "int32_setitem arr a v =
     (if a \<ge> length arr then Inl IndexError
      else if v < - (2 ^ 31) \<or> v \<ge> 2 ^ 31 then Inl OverflowError
      else Inr (arr[a := v]))"

definition set_header ::
  "(string \<rightharpoonup> int list) \<Rightarrow> string \<Rightarrow> nat \<Rightarrow> int \<Rightarrow> error + (string \<rightharpoonup> int list)" where
  "set_header STH key a v =
     e_bind (getitem STH key) (\<lambda>arr.
     e_bind (int32_setitem arr a v) (\<lambda>arr'. Inr (STH(key \<mapsto> arr'))))"

fun set_defaults ::
  "(string \<rightharpoonup> int list) \<Rightarrow> nat list \<Rightarrow> int \<Rightarrow> int \<Rightarrow> error + (string \<rightharpoonup> int list)" where
  "set_defaults STH [] ns dt = Inr STH"
| "set_defaults STH (a # rest) ns dt =
     e_bind (set_header STH ''TraceSequenceLine'' a (int a + 1)) (\<lambda>STH.
     e_bind (set_header STH ''TraceSequenceFile'' a (int a + 1)) (\<lambda>STH.
     e_bind (set_header STH ''FieldRecord'' a 1000) (\<lambda>STH.
     e_bind (set_header STH ''TraceNumber'' a (int a + 1)) (\<lambda>STH.
     e_bind (set_header STH ''ns'' a ns) (\<lambda>STH.
     e_bind (set_header STH ''dt'' a dt) (\<lambda>STH.
       set_defaults STH rest ns dt))))))"

fun override_key ::
  "(string \<rightharpoonup> int list) \<Rightarrow> string \<Rightarrow> int list \<Rightarrow> nat list \<Rightarrow> error + (string \<rightharpoonup> int list)" where
  "override_key STH key vals [] = Inr STH"
| "override_key STH key vals (a # rest) =
     (if a \<ge> length vals then Inl IndexError
      else e_bind (set_header STH key a (vals ! a)) (\<lambda>STH. override_key STH key vals rest))"

fun override_all ::
  "(string \<rightharpoonup> int list) \<Rightarrow> (string \<times> int list) list \<Rightarrow> nat \<Rightarrow> error + (string \<rightharpoonup> int list)" where
  "override_all STH [] ntraces = Inr STH"
| "override_all STH ((key, vals) # rest) ntraces =
     e_bind (override_key STH key vals [0..<ntraces]) (\<lambda>STH. override_all STH rest ntraces)"

definition setSegyTraceHeaders ::
  "(string \<times> int list) list option \<Rightarrow> nat \<Rightarrow> int \<Rightarrow> int \<Rightarrow> error + (string \<rightharpoonup> int list)" where
  "setSegyTraceHeaders mySTH ntraces ns dt =
     (let STH = map_of (map (\<lambda>(key, pos, t). (key, replicate ntraces 0)) STH_def) in
      e_bind (set_defaults STH [0..<ntraces] ns dt) (\<lambda>STH.
        case mySTH of None \<Rightarrow> Inr STH | Some m \<Rightarrow> override_all STH m ntraces))"

section \<open>Writing the file\<close>

text \<open>\<open>STFH.encode('ascii')\<close>: characters below 128 only.\<close>

definition encode_ascii :: "string \<Rightarrow> error + byte list" where
  "encode_ascii s =
     (if list_all (\<lambda>ch. (of_char ch :: nat) < 128) s then Inr (map (\<lambda>ch. of_nat (of_char ch)) s)
      else Inl UnicodeEncodeError)"

text \<open>
  \<open>f.seek(index); f.write(bs)\<close> on the content of the file: a write past the end fills
  the gap with zero bytes, a write inside replaces what is there.
\<close>

definition file_write :: "byte list \<Rightarrow> int \<Rightarrow> byte list \<Rightarrow> error + byte list" where
  "file_write content index bs =
     (if index < 0 then Inl OSError
      else Inr (take (nat index) (content @ replicate (nat index - length content) 0)
                @ bs @ drop (nat index + length bs) content))"

fun pack_SH ::
  "float_ops \<Rightarrow> header \<Rightarrow> (string \<times> int \<times> dtype \<times> int) list \<Rightarrow> error + byte list" where
  "pack_SH fp SH [] = Inr []"
| "pack_SH fp SH ((key, pos, t, dflt) # rest) =
     e_bind (getitem SH key) (\<lambda>v.
     e_bind (packValue fp (IntV (py_value v)) t) (\<lambda>bytesObject.
     e_bind (pack_SH fp SH rest) (\<lambda>bs. Inr (bytesObject @ bs))))"

fun pack_STH ::
  "float_ops \<Rightarrow> (string \<rightharpoonup> int list) \<Rightarrow> nat \<Rightarrow> (string \<times> int \<times> dtype) list \<Rightarrow> error + byte list" where
  "pack_STH fp STH itrace [] = Inr []"
| "pack_STH fp STH itrace ((key, pos, t) # rest) =
     e_bind (getitem STH key) (\<lambda>arr.
       if itrace \<ge> length arr then Inl IndexError
       else
         e_bind (packValue fp (IntV (arr ! itrace)) t) (\<lambda>bytesObject.
         e_bind (pack_STH fp STH itrace rest) (\<lambda>bs. Inr (bytesObject @ bs))))"

text \<open>\<open>Data[:, itrace]\<close>.\<close>

definition column :: "grid \<Rightarrow> nat \<Rightarrow> error + numval list" where
  "column Data itrace =
     (if itrace \<ge> snd (shape Data) then Inl IndexError
      else Inr (map (\<lambda>row. row ! itrace) (rows Data)))"

text \<open>The loop over the traces; \<open>index += traceByteSize\<close> ends each round.\<close>

fun write_traces ::
  "float_ops \<Rightarrow> grid \<Rightarrow> (string \<rightharpoonup> int list) \<Rightarrow> int \<Rightarrow> ctype \<Rightarrow> pyint \<Rightarrow> nat list \<Rightarrow> pyint \<Rightarrow> byte list
     \<Rightarrow> error + byte list" where
  "write_traces fp Data STH ns ct traceByteSize [] index file = Inr file"
| "write_traces fp Data STH ns ct traceByteSize (itrace # rest) index file =
     e_bind (pack_STH fp STH itrace STH_def) (\<lambda>TraceByteArray.
     e_bind (column Data itrace) (\<lambda>aray1d.
     e_bind (struct_pack fp ct ns aray1d) (\<lambda>aray1dPack.
     e_bind (file_write file (py_value index) (TraceByteArray @ aray1dPack)) (\<lambda>file.
     e_bind (np_binop (+) index traceByteSize) (\<lambda>index.
       write_traces fp Data STH ns ct traceByteSize rest index file)))))"

text \<open>
  \<open>writeSegyStructure\<close>: the result is the content of the file when the function returns.
\<close>

definition writeSegyStructure ::
  "float_ops \<Rightarrow> grid \<Rightarrow> string \<Rightarrow> header \<Rightarrow> (string \<rightharpoonup> int list) \<Rightarrow> error + byte list" where
  "writeSegyStructure fp Data STFH SH STH =
     e_bind (encode_ascii STFH) (\<lambda>text.
     e_bind (file_write [] 0 text) (\<lambda>file.
     e_bind (getRevisionNumber SH) (\<lambda>revno.
     e_bind (getitem SH ''DataSampleFormat'') (\<lambda>dsf.
     e_bind (getitem SH ''ntraces'') (\<lambda>ntraces.
     e_bind (getitem SH ''ns'') (\<lambda>ns.
     e_bind (lookup2 DataSampleFormat_descr revno (py_value dsf)) (\<lambda>DataDescr.
     e_bind (pack_SH fp SH SH_def) (\<lambda>SH_ByteArray.
     e_bind (file_write file bytes_STFH SH_ByteArray) (\<lambda>file.
     let index = PyInt (bytes_STFH + bytes_SBFH) in
     e_bind (lookup2 DataSampleFormat_datatype revno (py_value dsf)) (\<lambda>dtype.
     e_bind (getitem dtype2ctype dtype) (\<lambda>ct.
     e_bind (lookup2 DataSampleFormat_bps revno (py_value dsf)) (\<lambda>bps.
     e_bind (np_binop (*) ns (PyInt bps)) (\<lambda>nsbps.
     e_bind (np_binop (+) (PyInt bytes_STH) nsbps) (\<lambda>traceByteSize.
       write_traces fp Data STH (py_value ns) ct traceByteSize [0..<nat (py_value ntraces)]
         index file))))))))))))))"

definition writeSegy ::
  "float_ops \<Rightarrow> grid \<Rightarrow> int \<Rightarrow> string \<Rightarrow> (string \<times> int list) list option \<Rightarrow> error + byte list" where
  "writeSegy fp Data dt STFH mySTH =
     (let (ns, ntraces) = shape Data;
          SH = getDefaultSegyHeader
      in
      e_bind (getDSF_fromDataType (elem_type Data)) (\<lambda>(warnings, dsf).
      let SH = setSegyHeaders SH (Some (int ntraces)) (Some (int ns)) (Some dt) (Some dsf) in
      e_bind (setSegyTraceHeaders mySTH ntraces (int ns) dt) (\<lambda>STH.
        writeSegyStructure fp Data STFH SH STH)))"

text \<open>
  The arrays numpy can hold: as many rows as the shape says, each of the width the shape
  says, every element a value of the element type.
\<close>

fun fits :: "np_dtype \<Rightarrow> numval \<Rightarrow> bool" where
  "fits np_int8 (IntV v) = (- (2 ^ 7) \<le> v \<and> v < 2 ^ 7)"
| "fits np_int16 (IntV v) = (- (2 ^ 15) \<le> v \<and> v < 2 ^ 15)"
| "fits np_int32 (IntV v) = (- (2 ^ 31) \<le> v \<and> v < 2 ^ 31)"
| "fits np_int64 (IntV v) = (- (2 ^ 63) \<le> v \<and> v < 2 ^ 63)"
| "fits np_uint8 (IntV v) = (0 \<le> v \<and> v < 2 ^ 8)"
| "fits np_uint16 (IntV v) = (0 \<le> v \<and> v < 2 ^ 16)"
| "fits np_uint32 (IntV v) = (0 \<le> v \<and> v < 2 ^ 32)"
| "fits np_uint64 (IntV v) = (0 \<le> v \<and> v < 2 ^ 64)"
| "fits np_bool (IntV v) = (v = 0 \<or> v = 1)"
| "fits np_float32 (Float32V w) = True"
| "fits np_float64 (Float64V w) = True"
| "fits t v = False"

definition wf_grid :: "grid \<Rightarrow> bool" where
  "wf_grid Data =
     (length (rows Data) = fst (shape Data) \<and>
      list_all (\<lambda>row. length row = snd (shape Data) \<and> list_all (fits (elem_type Data)) row)
        (rows Data))"

section \<open>Notions used in the statements\<close>

text \<open>The number of format \<open>ct\<close> that the bytes of \<open>data\<close> hold at position \<open>pos\<close>.\<close>

definition field_at :: "ctype \<Rightarrow> byte list \<Rightarrow> nat \<Rightarrow> numval" where
  "field_at ct data pos = unpack1 ct (take (ctype_size ct) (drop pos data))"

text \<open>The \<open>n\<close> adjacent numbers of format \<open>ct\<close> that start at position \<open>pos\<close>.\<close>

definition values_at :: "ctype \<Rightarrow> byte list \<Rightarrow> nat \<Rightarrow> nat \<Rightarrow> numval list" where
  "values_at ct data pos n = map (\<lambda>i. field_at ct data (pos + i * ctype_size ct)) [0..<n]"

text \<open>The integer that a header field of type \<open>t\<close> holds at position \<open>pos\<close>.\<close>

definition int_at :: "dtype \<Rightarrow> byte list \<Rightarrow> nat \<Rightarrow> int" where
  "int_at t data pos =
     (case dtype2ctype t of Some ct \<Rightarrow> int_value (field_at ct data pos) | None \<Rightarrow> 0)"

text \<open>
  The file header as its fields decode at their declared positions, each a numpy scalar
  of the type of its field.
\<close>

definition decoded_SH :: "byte list \<Rightarrow> header" where
  "decoded_SH data =
     fold (\<lambda>(key, pos, t, dflt) SH. SH(key \<mapsto> NpInt (np_int_of t) (int_at t data (nat pos))))
       SH_def Map.empty"

text \<open>
  A small file: a zero textual header; a file header with \<open>dt = 1000\<close>, \<open>ns = 1\<close> and data
  sample format 5 (4-byte IEEE) and zeros elsewhere; one trace with a zero trace header and
  one zero sample.
\<close>

definition one_trace_file :: "byte list" where
  "one_trace_file =
     replicate 3216 0 @ [0x03, 0xE8, 0, 0, 0, 1, 0, 0, 0, 5] @ replicate 374 0 @ replicate 244 0"

text \<open>
  The sample of type \<open>t\<close> that the bytes hold at position \<open>p\<close>, as \<open>getValue\<close> decodes it
  (an IBM float is converted and stored into a float32 array), the size of a sample, and
  \<open>n\<close> adjacent samples.
\<close>

definition ibm_at :: "float_ops \<Rightarrow> byte list \<Rightarrow> nat \<Rightarrow> numval" where
  "ibm_at fp data p =
     np_store fp float32 (RealV (case ibm2ieee (take 4 (drop p data)) of Inr r \<Rightarrow> r | Inl e \<Rightarrow> 0))"

definition sample_at :: "float_ops \<Rightarrow> dtype \<Rightarrow> byte list \<Rightarrow> nat \<Rightarrow> numval" where
  "sample_at fp t data p =
     (case dtype2ctype t of Some ct \<Rightarrow> field_at ct data p | None \<Rightarrow> ibm_at fp data p)"

definition sample_size :: "dtype \<Rightarrow> nat" where
  "sample_size t = (case dtype2ctype t of Some ct \<Rightarrow> ctype_size ct | None \<Rightarrow> 4)"

definition samples_at :: "float_ops \<Rightarrow> dtype \<Rightarrow> byte list \<Rightarrow> nat \<Rightarrow> nat \<Rightarrow> numval list" where
  "samples_at fp t data p n = map (\<lambda>k. sample_at fp t data (p + k * sample_size t)) [0..<n]"

text \<open>
  A file of 8-bit samples: \<open>ns = 2\<close>, data sample format 8, and one trace with a zero trace
  header and the sample bytes 200 and 50.
\<close>

definition byte_file :: "byte list" where
  "byte_file = replicate 3220 0 @ [0, 2, 0, 0, 0, 8] @ replicate 374 0 @ replicate 240 0 @ [200, 50]"

text \<open>The file \<open>one_trace_file\<close> followed by four more bytes, too few for another trace.\<close>

definition trailing_file :: "byte list" where
  "trailing_file = one_trace_file @ replicate 4 0"

text \<open>A grid with a negative integer sample.\<close>

fun is_negative :: "numval \<Rightarrow> bool" where
  "is_negative (IntV v) = (v < 0)"
| "is_negative x = False"

definition has_negative :: "grid \<Rightarrow> bool" where
  "has_negative Data = list_ex (list_ex is_negative) (rows Data)"

section \<open>Basic facts\<close>

lemma e_bind_Inr [simp]: "e_bind (Inr x) k = k x"
  by (simp add: e_bind_def)

lemma e_bind_Inl [simp]: "e_bind (Inl e) k = Inl e"
  by (simp add: e_bind_def)

lemma getitem_Some [simp]: "m k = Some v \<Longrightarrow> getitem m k = Inr v"
  by (simp add: getitem_def)

lemma getitem_None [simp]: "m k = None \<Longrightarrow> getitem m k = Inl KeyError"
  by (simp add: getitem_def)

lemma np_fits_u16: "np_fits np_u16 v \<longleftrightarrow> 0 \<le> v \<and> v \<le> 65535"
  by (simp add: np_fits_def)

lemma np_wrap_u16: "np_wrap np_u16 v = v mod 65536"
  by (simp add: np_wrap_def)

lemma np_wrap_i64: "- (2 ^ 63) \<le> v \<Longrightarrow> v < 2 ^ 63 \<Longrightarrow> np_wrap np_i64 v = v"
  by (simp add: np_wrap_def)

lemma np_fits_i64: "np_fits np_i64 v \<longleftrightarrow> - (2 ^ 63) \<le> v \<and> v < 2 ^ 63"
  by (auto simp: np_fits_def)

lemma int_div_nonneg:
  "0 < b \<Longrightarrow> 0 \<le> a \<Longrightarrow> int_div a b = Inr (a div b)"
  by (cases "a = 0") (simp_all add: int_div_def)

lemma np_int_div_nonneg:
  "0 < b \<Longrightarrow> 0 \<le> a \<Longrightarrow> np_int_div a b = Inr (a div b)"
  by (cases "a = 0") (simp_all add: np_int_div_def)

lemma py_slice_nonneg:
  "0 \<le> i \<Longrightarrow> 0 \<le> j \<Longrightarrow> py_slice xs i j = take (nat j - nat i) (drop (nat i) xs)"
  by (auto simp: py_slice_def slice_index_def min_def)

lemma py_slice_nat:
  "py_slice xs (int p) (int p + int k) = take k (drop p xs)"
  using py_slice_nonneg [of "int p" "int p + int k" xs] by (simp add: nat_add_distrib)

lemma py_slice_backwards:
  "0 \<le> j \<Longrightarrow> j \<le> i \<Longrightarrow> py_slice xs i j = []"
  by (auto simp: py_slice_def slice_index_def min_def)

lemma dtype2csize_ctype:
  "dtype2ctype t = Some ct \<Longrightarrow> dtype2csize t = Some (ctype_size ct)"
  by (cases t) auto

lemma ctype_size_pos [simp]: "0 < ctype_size ct"
  by (cases ct) auto

lemma ctype_size_le_8: "ctype_size ct \<le> 8"
  by (cases ct) auto

lemma values_at_append:
  "values_at ct data pos (a + b) = values_at ct data pos a @ values_at ct data (pos + a * ctype_size ct) b"
proof -
  have "[0..<a + b] = [0..<a] @ [a..<a + b]"
    using upt_add_eq_append [of 0 a b] by simp
  moreover have "[a..<a + b] = map (\<lambda>i. i + a) [0..<b]"
    using map_add_upt [of a b] by (simp only: add.commute [of b a])
  ultimately have "[0..<a + b] = [0..<a] @ map (\<lambda>i. i + a) [0..<b]"
    by (simp only:)
  then show ?thesis
    by (simp add: values_at_def o_def algebra_simps)
qed

lemma length_values_at [simp]: "length (values_at ct data pos n) = n"
  by (simp add: values_at_def)

lemma take_chunk:
  assumes "i < n"
  shows "take c (drop (i * c) (take (n * c) xs)) = take c (drop (i * c) xs)"
proof -
  from assms have "Suc i \<le> n" by simp
  then have "Suc i * c \<le> n * c"
    by (rule mult_le_mono1)
  then have "c \<le> n * c - i * c"
    by simp
  then have "min c (n * c - i * c) = c"
    by simp
  then show ?thesis
    by (simp only: drop_take take_take)
qed

lemma length_take_drop_eq:
  "length (take m (drop p xs)) = m \<longleftrightarrow> m = 0 \<or> p + m \<le> length xs"
  by (simp add: min_def) arith

lemma ctype_size_nonzero [simp]: "ctype_size ct \<noteq> 0"
  by (cases ct) auto

lemma chunk_of_slice:
  assumes "i < n"
  shows "take c (drop (i * c) (take (n * c) (drop p data))) = take c (drop (p + i * c) data)"
proof -
  have "take c (drop (i * c) (take (n * c) (drop p data))) = take c (drop (i * c) (drop p data))"
    using assms by (rule take_chunk)
  also have "drop (i * c) (drop p data) = drop (p + i * c) data"
    by (simp only: drop_drop add.commute [of "i * c" p])
  finally show ?thesis .
qed

lemma struct_unpack_slice:
  "struct_unpack ct n (take (n * ctype_size ct) (drop p data)) =
     (if n = 0 \<or> p + n * ctype_size ct \<le> length data then Inr (values_at ct data p n)
      else Inl struct_error)"
proof -
  let ?bs = "take (n * ctype_size ct) (drop p data)"
  have len: "(length ?bs = n * ctype_size ct)
      = (n = 0 \<or> p + n * ctype_size ct \<le> length data)"
    unfolding length_take_drop_eq by simp
  have vals: "map (\<lambda>i. unpack1 ct (take (ctype_size ct) (drop (i * ctype_size ct) ?bs))) [0..<n]
      = values_at ct data p n"
    unfolding values_at_def field_at_def
  proof (rule map_cong [OF refl])
    fix i assume "i \<in> set [0..<n]"
    then have "i < n" by simp
    then show "unpack1 ct (take (ctype_size ct) (drop (i * ctype_size ct) ?bs))
             = unpack1 ct (take (ctype_size ct) (drop (p + i * ctype_size ct) data))"
      by (simp only: chunk_of_slice)
  qed
  show ?thesis
  proof (cases "n = 0 \<or> p + n * ctype_size ct \<le> length data")
    case True
    with len have "length ?bs = n * ctype_size ct" by blast
    then have "struct_unpack ct n ?bs = Inr (values_at ct data p n)"
      unfolding struct_unpack_def vals by simp
    with True show ?thesis by (simp only: if_True)
  next
    case False
    with len have "length ?bs \<noteq> n * ctype_size ct" by blast
    then have "struct_unpack ct n ?bs = Inl struct_error"
      unfolding struct_unpack_def by simp
    with False show ?thesis by (simp only: if_False)
  qed
qed

lemma nspb_pos [simp]: "0 < nspb"
  by (simp add: nspb_def)

lemma nspb_nonzero [simp]: "nspb \<noteq> 0"
  by (simp add: nspb_def)

lemma unpack_blocks_Cons:
  "unpack_blocks data (PyInt (int p)) ct (ctype_size ct) (PyInt (int n)) (int (n div nspb) + 1) (i # rest) =
     e_bind (struct_unpack ct (if i = n div nspb then n mod nspb else nspb)
               (take ((if i = n div nspb then n mod nspb else nspb) * ctype_size ct)
                  (drop (p + nspb * i * ctype_size ct) data)))
       (\<lambda>vals. e_bind (unpack_blocks data (PyInt (int p)) ct (ctype_size ct) (PyInt (int n))
                          (int (n div nspb) + 1) rest)
          (\<lambda>vs. Inr (vals @ vs)))"
proof -
  have slice: "py_slice data (int p + int (nspb * j) * int (ctype_size ct))
        (int p + int (nspb * j) * int (ctype_size ct) + int k * int (ctype_size ct))
      = take (k * ctype_size ct) (drop (p + nspb * j * ctype_size ct) data)" for k j
    using py_slice_nat [of data "p + nspb * j * ctype_size ct" "k * ctype_size ct"]
    by (simp only: of_nat_add of_nat_mult)
  show ?thesis
  proof (cases "i = n div nspb")
    case True
    have m: "int n mod int nspb = int (n mod nspb)"
      by (simp add: zmod_int)
    show ?thesis
      unfolding unpack_blocks.simps Let_def using True
      by (simp add: m slice del: of_nat_mult of_nat_add)
  next
    case False
    then have ne: "int i \<noteq> int (n div nspb)"
      by simp
    show ?thesis
      unfolding unpack_blocks.simps Let_def using False ne
      by (simp add: slice del: of_nat_mult of_nat_add)
  qed
qed

lemma e_bind_right [simp]: "e_bind m Inr = m"
  by (cases m) simp_all

lemma unpack_blocks_from:
  assumes "i \<le> n div nspb"
  shows "unpack_blocks data (PyInt (int p)) ct (ctype_size ct) (PyInt (int n)) (int (n div nspb) + 1) [i..<n div nspb + 1] =
     (if n - i * nspb = 0 \<or> p + n * ctype_size ct \<le> length data
      then Inr (values_at ct data (p + i * nspb * ctype_size ct) (n - i * nspb))
      else Inl struct_error)"
  using assms
proof (induction "n div nspb - i" arbitrary: i)
  case 0
  then have i: "i = n div nspb" by simp
  define q where "q = p + nspb * i * ctype_size ct"
  define r where "r = n mod nspb"
  have r: "r = n - i * nspb"
    unfolding i r_def by (simp add: minus_div_mult_eq_mod)
  have list: "[i..<n div nspb + 1] = [i]"
    unfolding i by simp
  have le: "i * nspb \<le> n"
    unfolding i by simp
  have q: "q = p + i * nspb * ctype_size ct"
    unfolding q_def by (simp add: mult.commute)
  have "i * nspb * ctype_size ct + (n - i * nspb) * ctype_size ct = (i * nspb + (n - i * nspb)) * ctype_size ct"
    by (simp only: add_mult_distrib)
  also have "i * nspb + (n - i * nspb) = n"
    using le by simp
  finally have pos: "q + r * ctype_size ct = p + n * ctype_size ct"
    unfolding q r by simp
  have "unpack_blocks data (PyInt (int p)) ct (ctype_size ct) (PyInt (int n)) (int (n div nspb) + 1) [i..<n div nspb + 1]
      = e_bind (struct_unpack ct r (take (r * ctype_size ct) (drop q data))) (\<lambda>vals. Inr vals)"
    unfolding list unpack_blocks_Cons q_def r_def using i by simp
  also have "\<dots> = (if r = 0 \<or> q + r * ctype_size ct \<le> length data
      then Inr (values_at ct data q r) else Inl struct_error)"
    unfolding struct_unpack_slice by simp
  finally show ?case
    unfolding pos unfolding q r .
next
  case (Suc k)
  then have lt: "i < n div nspb" by simp
  then have "Suc i \<le> n div nspb" by simp
  then have "Suc i * nspb \<le> n div nspb * nspb"
    by (rule mult_le_mono1)
  also have "\<dots> \<le> n" by simp
  finally have le: "i * nspb + nspb \<le> n" by simp
  from lt have list: "[i..<n div nspb + 1] = i # [Suc i..<n div nspb + 1]"
    by (simp add: upt_conv_Cons)
  have IH: "unpack_blocks data (PyInt (int p)) ct (ctype_size ct) (PyInt (int n)) (int (n div nspb) + 1) [Suc i..<n div nspb + 1] =
     (if n - Suc i * nspb = 0 \<or> p + n * ctype_size ct \<le> length data
      then Inr (values_at ct data (p + Suc i * nspb * ctype_size ct) (n - Suc i * nspb))
      else Inl struct_error)"
    using Suc.hyps(1) [of "Suc i"] Suc.hyps(2) lt by simp
  define m where "m = i * nspb"
  define c where "c = ctype_size ct"
  have mlt: "m < n"
    using le nspb_pos unfolding m_def by linarith
  have split: "n - m = nspb + (n - (m + nspb))"
    using le unfolding m_def by simp
  have cle: "(m + nspb) * c \<le> n * c"
    using le unfolding m_def by (intro mult_le_mono1) simp
  have blk: "struct_unpack ct nspb (take (nspb * ctype_size ct) (drop (p + nspb * i * ctype_size ct) data))
      = (if p + (m + nspb) * c \<le> length data then Inr (values_at ct data (p + m * c) nspb) else Inl struct_error)"
    unfolding struct_unpack_slice m_def c_def by (simp add: algebra_simps)
  have IH': "unpack_blocks data (PyInt (int p)) ct (ctype_size ct) (PyInt (int n)) (int (n div nspb) + 1) [Suc i..<n div nspb + 1] =
     (if n - (m + nspb) = 0 \<or> p + n * c \<le> length data
      then Inr (values_at ct data (p + m * c + nspb * c) (n - (m + nspb)))
      else Inl struct_error)"
    unfolding IH m_def c_def by (simp add: algebra_simps)
  have goal: "(if n - m = 0 \<or> p + n * c \<le> length data
      then Inr (values_at ct data (p + m * c) (n - m)) else Inl struct_error)
     = e_bind (if p + (m + nspb) * c \<le> length data then Inr (values_at ct data (p + m * c) nspb) else Inl struct_error)
        (\<lambda>vals. e_bind (if n - (m + nspb) = 0 \<or> p + n * c \<le> length data
      then Inr (values_at ct data (p + m * c + nspb * c) (n - (m + nspb)))
      else Inl struct_error) (\<lambda>vs. Inr (vals @ vs)))"
  proof (cases "p + n * c \<le> length data")
    case True
    have "p + (m + nspb) * c \<le> p + n * c"
      using cle by (rule add_left_mono)
    with True have "p + (m + nspb) * c \<le> length data" by (rule order_trans [rotated])
    moreover have "values_at ct data (p + m * c) (n - m)
        = values_at ct data (p + m * c) nspb @ values_at ct data (p + m * c + nspb * c) (n - (m + nspb))"
      unfolding c_def by (subst split) (rule values_at_append)
    moreover have "n - m \<noteq> 0"
      using mlt by simp
    ultimately show ?thesis
      using True by simp
  next
    case False
    have nz: "n - m \<noteq> 0"
      using mlt by simp
    show ?thesis
    proof (cases "p + (m + nspb) * c \<le> length data")
      case True
      with False have "m + nspb \<noteq> n" by auto
      with le have "n - (m + nspb) \<noteq> 0" unfolding m_def by simp
      with False True nz show ?thesis by simp
    next
      case F2: False
      with False nz show ?thesis by simp
    qed
  qed
  have ne: "i \<noteq> n div nspb"
    using lt by simp
  have "unpack_blocks data (PyInt (int p)) ct (ctype_size ct) (PyInt (int n)) (int (n div nspb) + 1) [i..<n div nspb + 1]
      = e_bind (struct_unpack ct nspb (take (nspb * ctype_size ct) (drop (p + nspb * i * ctype_size ct) data)))
          (\<lambda>vals. e_bind (unpack_blocks data (PyInt (int p)) ct (ctype_size ct) (PyInt (int n)) (int (n div nspb) + 1) [Suc i..<n div nspb + 1])
             (\<lambda>vs. Inr (vals @ vs)))"
    unfolding list unpack_blocks_Cons using ne by (simp only: if_False)
  also have "\<dots> = (if n - m = 0 \<or> p + n * c \<le> length data
      then Inr (values_at ct data (p + m * c) (n - m)) else Inl struct_error)"
    unfolding blk IH' by (rule goal [symmetric])
  finally show ?case
    unfolding m_def c_def .
qed

lemma unpack_blocks_all:
  "unpack_blocks data (PyInt (int p)) ct (ctype_size ct) (PyInt (int n)) (int (n div nspb) + 1) [0..<n div nspb + 1] =
     (if n = 0 \<or> p + n * ctype_size ct \<le> length data
      then Inr (values_at ct data p n) else Inl struct_error)"
  using unpack_blocks_from [of 0 n data p ct] by simp

lemma values_at_one: "values_at ct data p (Suc 0) = [field_at ct data p]"
  by (simp add: values_at_def)

lemma getValue_not_understood:
  assumes "\<not> np_understood t" "t \<noteq> ibm"
  shows "getValue fp data index t number = Inl (TypeError_not_understood t)"
  using assms by (cases t) (simp_all add: getValue_def np_empty_def)

lemma getValue_closed:
  assumes "dtype2ctype t = Some ct" "np_understood t"
  shows "getValue fp data (PyInt (int p)) t (PyInt (int n)) =
     (if n = 0 \<or> p + n * ctype_size ct \<le> length data
      then Inr (if n = 1 then Scalar (field_at ct data p) else Array (values_at ct data p n))
      else Inl struct_error)"
proof -
  from assms have t: "t \<noteq> ibm" by auto
  have cs: "dtype2csize t = Some (ctype_size ct)"
    using assms(1) by (rule dtype2csize_ctype)
  have q: "int_truediv (PyInt (int n)) (PyInt (int nspb)) = Inr (int (n div nspb))"
    by (simp add: int_div_nonneg zdiv_int)
  have l: "nat (int (n div nspb) + 1) = n div nspb + 1"
    by simp
  have "getValue fp data (PyInt (int p)) t (PyInt (int n)) =
      e_bind (unpack_blocks data (PyInt (int p)) ct (ctype_size ct) (PyInt (int n)) (int (n div nspb) + 1)
                [0..<n div nspb + 1])
        (\<lambda>Value. if n = 1 then Inr (Scalar (Value ! 0)) else Inr (Array Value))"
    unfolding getValue_def q using t assms cs by (simp add: np_empty_def Let_def l del: upt_Suc)
  then show ?thesis
    unfolding unpack_blocks_all by (simp add: values_at_one)
qed

lemma getValue_one:
  assumes "dtype2ctype t = Some ct" "np_understood t"
  shows "getValue fp data (PyInt (int p)) t (PyInt 1) =
     (if p + ctype_size ct \<le> length data then Inr (Scalar (field_at ct data p))
      else Inl struct_error)"
  using getValue_closed [OF assms, of fp data p 1] by simp

lemma getValue_negative:
  "py_value number < 0 \<Longrightarrow> np_understood t \<or> t = ibm
     \<Longrightarrow> getValue fp data index t number = Inl ValueError_negative_dimensions"
  by (cases t) (simp_all add: getValue_def np_empty_def)

text \<open>
  A uint16 scalar as the number of values: the quotient \<open>number / nspb\<close> raises
  \<open>OverflowError\<close>, as \<open>nspb\<close> does not fit into a uint16.
\<close>

lemma getValue_uint16_number:
  assumes "dtype2ctype t = Some ct" "np_understood t" "0 \<le> n"
  shows "getValue fp data index t (NpInt np_u16 n) = Inl OverflowError"
proof -
  from assms have t: "t \<noteq> ibm" by auto
  have cs: "dtype2csize t = Some (ctype_size ct)"
    using assms(1) by (rule dtype2csize_ctype)
  show ?thesis
    unfolding getValue_def using t assms cs
    by (simp add: np_empty_def np_fits_def nspb_def)
qed

lemma mod_wrap_once:
  fixes x :: int
  assumes "65536 \<le> x" "x < 131072"
  shows "x mod 65536 = x - 65536"
proof -
  have "(x - 65536) mod 65536 = x - 65536"
    using assms by (intro mod_pos_pos_trivial) simp_all
  moreover have "(x - 65536) mod 65536 = x mod 65536"
    by (rule minus_mod_self2)
  ultimately show ?thesis
    by simp
qed

text \<open>
  One number at a position that is a uint16 scalar: the end of the slice is computed in
  uint16 too, and when it wraps the slice is empty.
\<close>

lemma getValue_one_u16:
  assumes "dtype2ctype t = Some ct" "np_understood t" "p \<le> 65535"
  shows "getValue fp data (NpInt np_u16 (int p)) t (PyInt 1) =
     (if p + ctype_size ct \<le> 65535 \<and> p + ctype_size ct \<le> length data
      then Inr (Scalar (field_at ct data p))
      else Inl struct_error)"
proof -
  from assms have t: "t \<noteq> ibm" by auto
  have cs: "dtype2csize t = Some (ctype_size ct)"
    using assms(1) by (rule dtype2csize_ctype)
  have q: "int_truediv (PyInt 1) (PyInt (int nspb)) = Inr 0"
    by (simp add: int_div_def nspb_def)
  define c where "c = ctype_size ct"
  have c: "0 < c" "c \<le> 8"
    unfolding c_def by (simp_all add: ctype_size_le_8)
  have one: "(1 :: int) mod int nspb = 1"
    by (simp add: nspb_def)
  have pm: "int p mod 65536 = int p"
    using assms(3) by simp
  have c16: "ctype_size ct \<le> 65535"
    using ctype_size_le_8 [of ct] by simp
  have "getValue fp data (NpInt np_u16 (int p)) t (PyInt 1) =
      e_bind (struct_unpack ct 1 (py_slice data (int p) ((int p + int c) mod 65536)))
        (\<lambda>vals. Inr (Scalar (vals ! 0)))"
    unfolding getValue_def q using t assms(1,2) cs
    by (simp add: np_empty_def Let_def one np_fits_u16 np_wrap_u16 pm c_def c16)
  also have "\<dots> = (if p + c \<le> 65535 \<and> p + c \<le> length data
      then Inr (Scalar (field_at ct data p)) else Inl struct_error)"
  proof (cases "p + c \<le> 65535")
    case True
    have m: "(int p + int c) mod 65536 = int p + int c"
      using True by simp
    have sl: "py_slice data (int p) ((int p + int c) mod 65536) = take (1 * c) (drop p data)"
      unfolding m using py_slice_nat [of data p c] by simp
    have su: "struct_unpack ct 1 (take (1 * c) (drop p data)) =
        (if p + c \<le> length data then Inr [field_at ct data p] else Inl struct_error)"
      unfolding c_def using struct_unpack_slice [of ct 1 p data] by (simp add: values_at_one)
    show ?thesis
      unfolding sl su using True by simp
  next
    case False
    have "(int p + int c) mod 65536 = int p + int c - 65536"
      using False assms(3) c by (intro mod_wrap_once) simp_all
    then have sl: "py_slice data (int p) ((int p + int c) mod 65536) = []"
      using False c by (intro py_slice_backwards) simp_all
    have su: "struct_unpack ct 1 [] = Inl struct_error"
      by (simp add: struct_unpack_def)
    show ?thesis
      unfolding sl su using False by simp
  qed
  finally show ?thesis
    unfolding c_def .
qed

lemma read_fields_closed:
  assumes "list_all (\<lambda>(key, pos, t, dflt). 0 \<le> pos \<and> np_understood t \<and> (\<exists>ct. dtype2ctype t = Some ct \<and> nat pos + ctype_size ct \<le> length data)) fs"
  shows "read_fields fp data fs SH =
     Inr (fold (\<lambda>(key, pos, t, dflt) SH. SH(key \<mapsto> NpInt (np_int_of t) (int_at t data (nat pos)))) fs SH)"
  using assms
proof (induction fs arbitrary: SH)
  case Nil
  then show ?case by simp
next
  case (Cons f fs)
  obtain key pos t dflt where f: "f = (key, pos, t, dflt)"
    by (cases f) auto
  from Cons.prems f obtain ct where pos: "0 \<le> pos" and und: "np_understood t" and ct: "dtype2ctype t = Some ct"
    and len: "nat pos + ctype_size ct \<le> length data"
    by auto
  have gv: "getValue fp data (PyInt pos) t (PyInt 1) = Inr (Scalar (field_at ct data (nat pos)))"
    using getValue_one [OF ct und, of fp data "nat pos"] pos len by simp
  have iv: "int_value (the_scalar (Scalar (field_at ct data (nat pos)))) = int_at t data (nat pos)"
    by (simp add: int_at_def ct)
  have rest: "list_all (\<lambda>(key, pos, t, dflt). 0 \<le> pos \<and> np_understood t \<and> (\<exists>ct. dtype2ctype t = Some ct \<and> nat pos + ctype_size ct \<le> length data)) fs"
    using Cons.prems by simp
  have "read_fields fp data (f # fs) SH = read_fields fp data fs (SH(key \<mapsto> NpInt (np_int_of t) (int_at t data (nat pos))))"
    unfolding f read_fields.simps gv e_bind_Inr iv ..
  also have "\<dots> = Inr (fold (\<lambda>(key, pos, t, dflt) SH. SH(key \<mapsto> NpInt (np_int_of t) (int_at t data (nat pos)))) fs
        (SH(key \<mapsto> NpInt (np_int_of t) (int_at t data (nat pos)))))"
    by (rule Cons.IH [OF rest])
  finally have "read_fields fp data (f # fs) SH =
      Inr (fold (\<lambda>(key, pos, t, dflt) SH. SH(key \<mapsto> NpInt (np_int_of t) (int_at t data (nat pos)))) fs
        (SH(key \<mapsto> NpInt (np_int_of t) (int_at t data (nat pos)))))" .
  moreover have "fold (\<lambda>(key, pos, t, dflt) SH. SH(key \<mapsto> NpInt (np_int_of t) (int_at t data (nat pos)))) (f # fs) SH
      = fold (\<lambda>(key, pos, t, dflt) SH. SH(key \<mapsto> NpInt (np_int_of t) (int_at t data (nat pos)))) fs
        (SH(key \<mapsto> NpInt (np_int_of t) (int_at t data (nat pos))))"
    unfolding f by simp
  ultimately show ?case
    by (simp only:)
qed

lemma SH_def_bounds:
  assumes "3508 \<le> length data"
  shows "list_all (\<lambda>(key, pos, t, dflt). 0 \<le> pos \<and> np_understood t \<and> (\<exists>ct. dtype2ctype t = Some ct \<and> nat pos + ctype_size ct \<le> length data)) SH_def"
  using assms by (simp add: SH_def_def)

lemma read_fields_SH_def:
  assumes "3508 \<le> length data"
  shows "read_fields fp data SH_def Map.empty = Inr (decoded_SH data)"
  unfolding decoded_SH_def by (rule read_fields_closed) (rule SH_def_bounds [OF assms])

lemma decoded_SH_keys:
  "decoded_SH data ''ns'' = Some (NpInt np_u16 (int_at uint16 data 3220))"
  "decoded_SH data ''dt'' = Some (NpInt np_u16 (int_at uint16 data 3216))"
  "decoded_SH data ''DataSampleFormat'' = Some (NpInt np_i16 (int_at int16 data 3224))"
  "decoded_SH data ''SegyFormatRevisionNumber'' = Some (NpInt np_u16 (int_at uint16 data 3500))"
  "decoded_SH data ''ntraces'' = None"
  by (simp_all add: decoded_SH_def SH_def_def)

lemma be_nat_snoc: "be_nat (bs @ [b]) = be_nat bs * 256 + unat b"
  by (simp add: be_nat_def)

lemma be_nat_Nil [simp]: "be_nat [] = 0"
  by (simp add: be_nat_def)

lemma be_nat_bound: "be_nat bs < 256 ^ length bs"
proof (induction bs rule: rev_induct)
  case Nil
  then show ?case by simp
next
  case (snoc b bs)
  have "unat b < 256"
    using unsigned_less [of b, where 'a = nat] by simp
  with snoc show ?case
    unfolding be_nat_snoc by simp
qed

lemma be_nat_take_bound: "be_nat (take n xs) < 256 ^ n"
proof -
  have "be_nat (take n xs) < 256 ^ length (take n xs)"
    by (rule be_nat_bound)
  also have "\<dots> \<le> (256 :: nat) ^ n"
    by (rule power_increasing) simp_all
  finally show ?thesis .
qed

lemma int_at_uint16_range: "0 \<le> int_at uint16 data p \<and> int_at uint16 data p < 65536"
  using be_nat_take_bound [of 2 "drop p data"]
  by (simp add: int_at_def field_at_def)

lemma read_fields_error:
  assumes "list_all (\<lambda>(key, pos, t, dflt). 0 \<le> pos \<and> np_understood t \<and> (\<exists>ct. dtype2ctype t = Some ct)) fs"
    and "\<not> list_all (\<lambda>(key, pos, t, dflt). 0 \<le> pos \<and> np_understood t \<and> (\<exists>ct. dtype2ctype t = Some ct \<and> nat pos + ctype_size ct \<le> length data)) fs"
  shows "read_fields fp data fs SH = Inl struct_error"
  using assms
proof (induction fs arbitrary: SH)
  case Nil
  then show ?case by simp
next
  case (Cons f fs)
  obtain key pos t dflt where f: "f = (key, pos, t, dflt)"
    by (cases f) auto
  from Cons.prems(1) f obtain ct where pos: "0 \<le> pos" and und: "np_understood t" and ct: "dtype2ctype t = Some ct"
    by auto
  show ?case
  proof (cases "nat pos + ctype_size ct \<le> length data")
    case True
    have gv: "getValue fp data (PyInt pos) t (PyInt 1) = Inr (Scalar (field_at ct data (nat pos)))"
      using getValue_one [OF ct und, of fp data "nat pos"] pos True by simp
    have "read_fields fp data fs (SH(key \<mapsto> NpInt (np_int_of t) (int_value (the_scalar (Scalar (field_at ct data (nat pos))))))) = Inl struct_error"
      using Cons.prems True ct pos unfolding f by (intro Cons.IH) auto
    then show ?thesis
      unfolding f read_fields.simps gv e_bind_Inr .
  next
    case False
    have gv: "getValue fp data (PyInt pos) t (PyInt 1) = Inl struct_error"
      using getValue_one [OF ct und, of fp data "nat pos"] pos False by simp
    show ?thesis
      unfolding f read_fields.simps gv e_bind_Inl ..
  qed
qed

lemma SH_def_types:
  "list_all (\<lambda>(key, pos, t, dflt). 0 \<le> pos \<and> np_understood t \<and> (\<exists>ct. dtype2ctype t = Some ct)) SH_def"
  by (simp add: SH_def_def)

lemma SH_def_bounds_iff:
  "list_all (\<lambda>(key, pos, t, dflt). 0 \<le> pos \<and> np_understood t \<and> (\<exists>ct. dtype2ctype t = Some ct \<and> nat pos + ctype_size ct \<le> length data)) SH_def
    \<longleftrightarrow> 3508 \<le> length data"
  by (simp add: SH_def_def) arith

lemma read_fields_SH_def_iff:
  "read_fields fp data SH_def Map.empty =
     (if 3508 \<le> length data then Inr (decoded_SH data) else Inl struct_error)"
proof (cases "3508 \<le> length data")
  case True
  then show ?thesis by (simp add: read_fields_SH_def)
next
  case False
  then have "read_fields fp data SH_def Map.empty = Inl struct_error"
    by (intro read_fields_error SH_def_types) (simp only: SH_def_bounds_iff not_False_eq_True)
  with False show ?thesis by simp
qed

lemma getRevisionNumber_upd [simp]:
  "getRevisionNumber (SH(''ntraces'' \<mapsto> v)) = getRevisionNumber SH"
  by (simp add: getRevisionNumber_def getitem_def)

lemma getBytePerSample_upd [simp]:
  "getBytePerSample (SH(''ntraces'' \<mapsto> v)) = getBytePerSample SH"
  by (simp add: getBytePerSample_def getitem_def)

lemma getBytePerSample_range:
  assumes "getBytePerSample SH = Inr bps"
  shows "bps = 1 \<or> bps = 2 \<or> bps = 4"
proof -
  from assms obtain revno where r: "getRevisionNumber SH = Inr revno"
    by (cases "getRevisionNumber SH") (simp_all add: getBytePerSample_def)
  then have revno: "revno = 1"
    by (auto simp: getRevisionNumber_def getitem_def split: option.splits if_splits)
  from assms r obtain dsf where "lookup2 DataSampleFormat_bps 1 dsf = Inr bps"
    unfolding getBytePerSample_def revno
    by (cases "SH ''DataSampleFormat''") (simp_all add: getitem_def)
  then show ?thesis
    by (simp add: lookup2_def DataSampleFormat_bps_def getitem_def split: if_splits)
qed

lemma trace_size_u16:
  assumes "bps = 1 \<or> bps = 2 \<or> bps = 4"
  shows "e_bind (np_binop (*) (NpInt np_u16 ns) (PyInt bps)) (\<lambda>nsbps.
           e_bind (np_binop (+) (PyInt bytes_STH) nsbps) k)
       = k (NpInt np_u16 ((240 + ns * bps) mod 65536))"
proof -
  have "np_fits np_u16 bps"
    using assms by (auto simp: np_fits_u16)
  moreover have "(240 + ns * bps mod 65536) mod 65536 = (240 + ns * bps) mod 65536"
    by (rule mod_add_right_eq)
  ultimately show ?thesis
    by (simp add: np_fits_u16 np_wrap_u16 bytes_STH_def)
qed

lemma getSegyHeader_closed:
  "getSegyHeader fp data =
     (if 3508 \<le> length data then
        e_bind (getBytePerSample (decoded_SH data)) (\<lambda>bps.
          if int (length data) < 3600 \<or> 69135 < int (length data) then Inl OverflowError
          else e_bind (np_int_div (int (length data) - 3600)
                         ((240 + int_at uint16 data 3220 * bps) mod 65536))
                 (\<lambda>nt. Inr ((decoded_SH data)(''ntraces'' \<mapsto> PyInt nt))))
      else Inl struct_error)"
proof (cases "3508 \<le> length data")
  case False
  then show ?thesis
    unfolding getSegyHeader_def read_fields_SH_def_iff by simp
next
  case True
  show ?thesis
  proof (cases "getBytePerSample (decoded_SH data)")
    case (Inl e)
    with True show ?thesis
      unfolding getSegyHeader_def read_fields_SH_def_iff by simp
  next
    case (Inr bps)
    then have range: "bps = 1 \<or> bps = 2 \<or> bps = 4"
      by (rule getBytePerSample_range)
    have "getSegyHeader fp data =
        (if int (length data) < 3600 \<or> 69135 < int (length data) then Inl OverflowError
          else e_bind (np_int_div (int (length data) - 3600)
                         ((240 + int_at uint16 data 3220 * bps) mod 65536))
                 (\<lambda>nt. Inr ((decoded_SH data)(''ntraces'' \<mapsto> PyInt nt))))"
      unfolding getSegyHeader_def read_fields_SH_def_iff using True Inr range
      by (auto simp: decoded_SH_keys Let_def np_fits_u16 np_wrap_u16 bytes_STH_def bytes_SFH_def
          mod_add_right_eq)
    then show ?thesis
      using True Inr by simp
  qed
qed

lemma np_int_div_Inr:
  assumes "np_int_div a b = Inr q" "0 \<le> a" "0 \<le> b"
  shows "0 < b \<and> q = a div b"
proof -
  from assms(1) have "b \<noteq> 0"
    by (auto simp: np_int_div_def split: if_splits)
  with assms(3) have b: "0 < b" by simp
  with assms show ?thesis
    by (simp add: np_int_div_nonneg)
qed

lemma getSegyHeader_Inr:
  assumes "getSegyHeader fp data = Inr SH"
  obtains bps nt where "3600 \<le> length data" and "length data \<le> 69135"
    and "SH = (decoded_SH data)(''ntraces'' \<mapsto> PyInt nt)"
    and "getBytePerSample SH = Inr bps"
    and "bps = 1 \<or> bps = 2 \<or> bps = 4"
    and "0 < (240 + int_at uint16 data 3220 * bps) mod 65536"
    and "nt = (int (length data) - 3600) div ((240 + int_at uint16 data 3220 * bps) mod 65536)"
proof -
  from assms have len: "3508 \<le> length data"
    unfolding getSegyHeader_closed by (simp split: if_splits)
  with assms obtain bps where bps: "getBytePerSample (decoded_SH data) = Inr bps"
    unfolding getSegyHeader_closed by (cases "getBytePerSample (decoded_SH data)") simp_all
  from assms len bps have l2: "3600 \<le> length data" "length data \<le> 69135"
    unfolding getSegyHeader_closed by (simp_all split: if_splits)
  define T where "T = (240 + int_at uint16 data 3220 * bps) mod 65536"
  from assms len bps l2 obtain nt where
    nt: "np_int_div (int (length data) - 3600) T = Inr nt"
    unfolding getSegyHeader_closed T_def
    by (cases "np_int_div (int (length data) - 3600) ((240 + int_at uint16 data 3220 * bps) mod 65536)")
      simp_all
  from assms len bps l2 nt have SH: "SH = (decoded_SH data)(''ntraces'' \<mapsto> PyInt nt)"
    unfolding getSegyHeader_closed T_def by simp
  have gb: "getBytePerSample SH = Inr bps"
    unfolding SH using bps by simp
  have range: "bps = 1 \<or> bps = 2 \<or> bps = 4"
    using bps by (rule getBytePerSample_range)
  have "0 \<le> T"
    unfolding T_def by simp
  with nt l2 have q: "0 < T \<and> nt = (int (length data) - 3600) div T"
    by (intro np_int_div_Inr) simp_all
  show thesis
    using that [OF l2 SH gb range] q unfolding T_def by blast
qed

lemma decoded_SH_upd_keys:
  "((decoded_SH data)(''ntraces'' \<mapsto> nt)) ''ns'' = Some (NpInt np_u16 (int_at uint16 data 3220))"
  "((decoded_SH data)(''ntraces'' \<mapsto> nt)) ''dt'' = Some (NpInt np_u16 (int_at uint16 data 3216))"
  "((decoded_SH data)(''ntraces'' \<mapsto> nt)) ''DataSampleFormat'' = Some (NpInt np_i16 (int_at int16 data 3224))"
  "((decoded_SH data)(''ntraces'' \<mapsto> nt)) ''SegyFormatRevisionNumber'' = Some (NpInt np_u16 (int_at uint16 data 3500))"
  "((decoded_SH data)(''ntraces'' \<mapsto> nt)) ''ntraces'' = Some nt"
  by (simp_all add: decoded_SH_keys)

text \<open>
  What a decoded file header holds: the trace count is a Python integer and the other
  entries are numpy scalars. When the trace size \<open>240 + ns * bps\<close> fits into a uint16, the
  count is the number of whole traces, and they lie inside the file.
\<close>

lemma header_keys:
  assumes "getSegyHeader fp data = Inr SH"
  obtains ns bps nt dt where "SH ''ns'' = Some (NpInt np_u16 ns)" "getBytePerSample SH = Inr bps"
    "SH ''ntraces'' = Some (PyInt nt)" "SH ''dt'' = Some (NpInt np_u16 dt)"
proof -
  from assms obtain bps nt where SH: "SH = (decoded_SH data)(''ntraces'' \<mapsto> PyInt nt)"
    and gb: "getBytePerSample SH = Inr bps"
    by (rule getSegyHeader_Inr)
  have f1: "SH ''ns'' = Some (NpInt np_u16 (int_at uint16 data 3220))"
    unfolding SH by (simp add: decoded_SH_keys)
  have f3: "SH ''ntraces'' = Some (PyInt nt)"
    unfolding SH by simp
  have f4: "SH ''dt'' = Some (NpInt np_u16 (int_at uint16 data 3216))"
    unfolding SH by (simp add: decoded_SH_keys)
  show thesis
    by (rule that [OF f1 gb f3 f4])
qed

lemma whole_traces_in_file:
  assumes "getSegyHeader fp data = Inr SH" "SH ''ntraces'' = Some (PyInt nt)"
    "SH ''ns'' = Some (NpInt np_u16 ns)" "getBytePerSample SH = Inr bps"
    "240 + ns * bps \<le> 65535"
  shows "0 \<le> ns" and "0 < bps" and "nt = (int (length data) - 3600) div (240 + ns * bps)"
    and "3600 + nt * (240 + ns * bps) \<le> int (length data)"
    and "SH ''dt'' = Some (NpInt np_u16 (int_at uint16 data 3216))"
    and "3600 \<le> length data" and "length data \<le> 69135" and "0 \<le> nt"
proof -
  from assms(1) obtain bps' nt' where len: "3600 \<le> length data" "length data \<le> 69135"
    and SH: "SH = (decoded_SH data)(''ntraces'' \<mapsto> PyInt nt')"
    and gb: "getBytePerSample SH = Inr bps'"
    and range: "bps' = 1 \<or> bps' = 2 \<or> bps' = 4"
    and nt': "nt' = (int (length data) - 3600) div ((240 + int_at uint16 data 3220 * bps') mod 65536)"
    by (rule getSegyHeader_Inr)
  from gb assms(4) have bps: "bps' = bps" by simp
  from assms(2) have nt: "nt' = nt"
    unfolding SH by simp
  from assms(3) have ns: "ns = int_at uint16 data 3220"
    unfolding SH by (simp add: decoded_SH_keys)
  show ns0: "0 \<le> ns"
    unfolding ns using int_at_uint16_range [of data 3220] by simp
  show bps0: "0 < bps"
    using range bps by auto
  show "SH ''dt'' = Some (NpInt np_u16 (int_at uint16 data 3216))"
    unfolding SH by (simp add: decoded_SH_keys)
  show "3600 \<le> length data" "length data \<le> 69135"
    by (rule len)+
  have "0 \<le> ns * bps"
    using ns0 bps0 by simp
  then have T: "0 < 240 + ns * bps"
    by simp
  then have m: "(240 + ns * bps) mod 65536 = 240 + ns * bps"
    using assms(5) by simp
  show q: "nt = (int (length data) - 3600) div (240 + ns * bps)"
    using nt' unfolding nt bps ns [symmetric] m .
  have L: "0 \<le> int (length data) - 3600"
    using len by simp
  show "0 \<le> nt"
    unfolding q using L T by (simp add: pos_imp_zdiv_nonneg_iff)
  have "(int (length data) - 3600) div (240 + ns * bps) * (240 + ns * bps)
      \<le> int (length data) - 3600"
    using div_mult_mod_eq [of "int (length data) - 3600" "240 + ns * bps"]
      pos_mod_sign [OF T, of "int (length data) - 3600"] by linarith
  then show "3600 + nt * (240 + ns * bps) \<le> int (length data)"
    using q by simp
qed

lemma one_trace_file_length: "length one_trace_file = 3844"
  by (simp add: one_trace_file_def)

lemma foldl_be_replicate_zero [simp]:
  "foldl (\<lambda>a b. a * 256 + unat b) 0 (replicate n (0 :: byte)) = 0"
  by (induction n) simp_all

lemma be_nat_replicate_zero [simp]: "be_nat (replicate n 0) = 0"
  by (simp add: be_nat_def)

lemma one_trace_file_fields:
  "int_at uint16 one_trace_file 3216 = 1000"
  "int_at uint16 one_trace_file 3220 = 1"
  "int_at int16 one_trace_file 3224 = 5"
  "int_at uint16 one_trace_file 3500 = 0"
  by (simp_all add: one_trace_file_def int_at_def field_at_def be_nat_def signed_of_def)

lemma one_trace_file_bps0:
  "getBytePerSample (decoded_SH one_trace_file) = Inr 4"
  by (simp add: getBytePerSample_def getRevisionNumber_def decoded_SH_keys
      one_trace_file_fields lookup2_def DataSampleFormat_bps_def)

lemma one_trace_file_header:
  "getSegyHeader fp one_trace_file = Inr ((decoded_SH one_trace_file)(''ntraces'' \<mapsto> PyInt 1))"
  unfolding getSegyHeader_closed
  by (simp add: one_trace_file_length one_trace_file_bps0 one_trace_file_fields np_int_div_def)

lemma one_trace_file_bps:
  "getBytePerSample ((decoded_SH one_trace_file)(''ntraces'' \<mapsto> PyInt 1)) = Inr 4"
  by (simp add: one_trace_file_bps0)

text \<open>
  The position of a field of a trace, computed from a uint16 trace size: every step is cut
  to 16 bits, so the position is \<open>3600 + T * j + pos\<close> modulo 65536.
\<close>

lemma trace_pos_u16:
  assumes "0 \<le> j" "j \<le> 65535" "0 \<le> pos" "pos \<le> 65535"
  shows "e_bind (np_binop (*) (NpInt np_u16 T) (PyInt j)) (\<lambda>a.
         e_bind (np_binop (+) (PyInt bytes_SFH) a) (\<lambda>b.
         e_bind (np_binop (+) b (PyInt pos)) k))
       = k (NpInt np_u16 ((3600 + T * j + pos) mod 65536))"
  using assms by (simp add: np_fits_u16 np_wrap_u16 bytes_SFH_def mod_simps)

lemma trace_pos_mod:
  "(3600 + (240 + x) mod 65536 * j + pos) mod 65536 = (3600 + (240 + x) * j + pos) mod (65536 :: int)"
proof -
  have "((240 + x) mod 65536 * j) mod 65536 = ((240 + x) * j) mod 65536"
    by (rule mod_mult_left_eq)
  then show ?thesis
    by (intro mod_add_cong refl)
qed




text \<open>Reading one field of one trace.\<close>

lemma getSegyTraceHeader_single:
  assumes hdr: "SH ''ntraces'' = Some nt" "SH ''ns'' = Some (NpInt np_u16 ns)"
      "getBytePerSample SH = Inr bps"
    and fld: "map_of (case TH_dict of None \<Rightarrow> STH_def | Some d \<Rightarrow> d) name = Some (pos, t)"
      "dtype2ctype t = Some ct" "np_understood t"
    and pos: "0 \<le> pos" "pos \<le> 65535"
    and i: "1 \<le> i" "i \<le> 65536"
  shows "getSegyTraceHeader fp SH data name TH_dict i =
     (if nat ((3600 + (240 + ns * bps) * (i - 1) + pos) mod 65536) + ctype_size ct \<le> 65535
       \<and> nat ((3600 + (240 + ns * bps) * (i - 1) + pos) mod 65536) + ctype_size ct \<le> length data
      then (if name = ''dt'' then Inl IndexError
            else Inr (Scalar (field_at ct data
                   (nat ((3600 + (240 + ns * bps) * (i - 1) + pos) mod 65536)))))
      else Inl struct_error)"
proof -
  define T where "T = (240 + ns * bps) mod 65536"
  define p where "p = nat ((3600 + T * (i - 1) + pos) mod 65536)"
  have range: "bps = 1 \<or> bps = 2 \<or> bps = 4"
    using hdr(3) by (rule getBytePerSample_range)
  have P: "(3600 + T * (i - 1) + pos) mod 65536 = (3600 + (240 + ns * bps) * (i - 1) + pos) mod 65536"
    unfolding T_def by (rule trace_pos_mod)
  have p: "int p = (3600 + T * (i - 1) + pos) mod 65536"
    unfolding p_def by simp
  have p16: "p \<le> 65535"
  proof -
    have "(3600 + T * (i - 1) + pos) mod 65536 < 65536"
      by simp
    then show ?thesis
      unfolding p_def by linarith
  qed
  have ii: "0 \<le> i - 1" "i - 1 \<le> 65535"
    using i by simp_all
  have ne: "i \<noteq> 0"
    using i by simp
  have "getSegyTraceHeader fp SH data name TH_dict i =
      e_bind (getValue fp data (NpInt np_u16 (int p)) t (PyInt 1))
        (\<lambda>TH_value. if name = ''dt'' then
              (case TH_value of
                 Scalar x \<Rightarrow> Inl IndexError
               | Array [] \<Rightarrow> Inl IndexError
               | Array (x # xs) \<Rightarrow>
                   if num_is_zero x then
                     e_bind (getitem SH ''dt'') (\<lambda>dt.
                     e_bind (np_fill fp t dt) (\<lambda>v. Inr (Array (map (\<lambda>_. v) (x # xs)))))
                   else Inr TH_value)
            else Inr TH_value)"
    unfolding getSegyTraceHeader_def p
    by (simp add: hdr fld(1) trace_size_u16 [OF range] T_def [symmetric] ne trace_pos_u16 [OF ii pos]
        del: np_binop.simps)
  then show ?thesis
    unfolding getValue_one_u16 [OF fld(2,3) p16] unfolding p_def P by simp
qed

text \<open>
  Whatever the header and the data are, reading the field \<open>dt\<close> of one trace never returns
  a value: when \<open>getValue\<close> returns, it returns a scalar, and \<open>TH_value[0]\<close> raises.
\<close>

lemma getValue_one_Inr:
  assumes "getValue fp data index t (PyInt 1) = Inr v"
  obtains x where "v = Scalar x"
proof -
  from assms show thesis
    unfolding getValue_def
    by (cases "if t = ibm
        then e_bind (np_empty (PyInt 1) float32) (\<lambda>_. IBM_values fp data index [0..<nat (py_value (PyInt 1))])
        else e_bind (getitem dtype2ctype t) (\<lambda>ct.
          e_bind (getitem dtype2csize t) (\<lambda>csize.
          e_bind (np_empty (PyInt 1) t) (\<lambda>_.
          e_bind (int_truediv (PyInt 1) (PyInt (int nspb))) (\<lambda>q.
            let nblock = q + 1 in
            unpack_blocks data index ct csize (PyInt 1) nblock [0..<nat nblock]))))")
      (auto intro: that)
qed

lemma e_bind_fails_iff:
  "(\<exists>e. e_bind m k = Inl e) \<longleftrightarrow> (\<forall>x. m = Inr x \<longrightarrow> (\<exists>e. k x = Inl e))"
  by (cases m) simp_all

lemma e_bind_eq_Inr:
  "(e_bind m k = Inr y) \<longleftrightarrow> (\<exists>x. m = Inr x \<and> k x = Inr y)"
  by (cases m) simp_all

lemma getSegyTraceHeader_dt_never_returns:
  assumes "i \<noteq> 0"
  shows "\<exists>e. getSegyTraceHeader fp SH data ''dt'' TH_dict i = Inl e"
proof -
  have "\<exists>e. (case v of
                 Scalar x \<Rightarrow> Inl IndexError
               | Array [] \<Rightarrow> Inl IndexError
               | Array (x # xs) \<Rightarrow>
                   if num_is_zero x then
                     e_bind (getitem SH ''dt'') (\<lambda>dt.
                     e_bind (np_fill fp t dt) (\<lambda>v. Inr (Array (map (\<lambda>_. v) (x # xs)))))
                   else Inr v) = Inl e"
    if "getValue fp data index t (PyInt 1) = Inr v" for index t v
  proof -
    from that obtain x where "v = Scalar x"
      by (rule getValue_one_Inr)
    then show ?thesis
      by simp
  qed
  then show ?thesis
    unfolding getSegyTraceHeader_def using assms
    by (auto simp: e_bind_fails_iff e_bind_eq_Inr split: prod.splits)
qed

section \<open>The revision number\<close>

text \<open>
  Claim C2. \<open>getRevisionNumber\<close> returns 1 for exactly the raw values 0, 100, 1 and 256 of
  the field \<open>SegyFormatRevisionNumber\<close> and raises \<open>ValueError\<close> (the unknown-revision
  error) with the raw value for every other one; there is no further branch. The error
  passes through \<open>getBytePerSample\<close>, which the decoder calls right after reading the file
  header and before anything else.
\<close>

theorem getRevisionNumber_four_codes:
  "getRevisionNumber SH =
     (case SH ''SegyFormatRevisionNumber'' of
        None \<Rightarrow> Inl KeyError
      | Some raw \<Rightarrow> if py_value raw \<in> {0, 100, 1, 256} then Inr 1
                    else Inl (ValueError_revno (py_value raw)))
   \<and> (case SH ''SegyFormatRevisionNumber'' of
        None \<Rightarrow> True
      | Some raw \<Rightarrow> py_value raw \<in> {0, 100, 1, 256}
                    \<or> getBytePerSample SH = Inl (ValueError_revno (py_value raw)))"
  by (auto simp: getRevisionNumber_def getBytePerSample_def split: option.splits)

text \<open>
  The decoder itself: a file of at least 3508 bytes whose revision field holds another
  value is refused by \<open>getSegyHeader\<close>, and with it by \<open>readSegy\<close> and \<open>readSegyTrace\<close>.
\<close>

lemma getSegyHeader_unknown_revision:
  assumes "3508 \<le> length data" "int_at uint16 data 3500 \<notin> {0, 100, 1, 256}"
  shows "getSegyHeader fp data = Inl (ValueError_revno (int_at uint16 data 3500))"
    and "readSegy fp data TH_dict TH_only = Inl (ValueError_revno (int_at uint16 data 3500))"
    and "readSegyTrace fp data TH_dict itrace = Inl (ValueError_revno (int_at uint16 data 3500))"
proof -
  have "getBytePerSample (decoded_SH data) = Inl (ValueError_revno (int_at uint16 data 3500))"
    using assms(2) by (simp add: getBytePerSample_def getRevisionNumber_def decoded_SH_keys)
  then show g: "getSegyHeader fp data = Inl (ValueError_revno (int_at uint16 data 3500))"
    unfolding getSegyHeader_closed using assms(1) by simp
  show "readSegy fp data TH_dict TH_only = Inl (ValueError_revno (int_at uint16 data 3500))"
    unfolding readSegy_def g by simp
  show "readSegyTrace fp data TH_dict itrace = Inl (ValueError_revno (int_at uint16 data 3500))"
    unfolding readSegyTrace_def g by simp
qed

section \<open>The IBM float conversion, checked\<close>

lemma exponent_bits:
  fixes e :: byte
  shows "(if uint e \<ge> 128 then uint e - 128 else uint e) = uint e mod 128"
proof -
  have "0 \<le> uint e" "uint e < 256"
    using uint_lt2p [of e] by simp_all
  then show ?thesis
    by presburger
qed

text \<open>The power \<open>16**(istic-64)\<close> of the code is the real power of 16.\<close>

lemma pow16_powr: "pow16 e = 16 powr real_of_int e"
proof (cases "0 \<le> e")
  case True
  then have "real_of_int e = real (nat e)"
    by simp
  then have "(16 :: real) powr real_of_int e = 16 ^ nat e"
    by (simp only: powr_realpow [of 16 "nat e"] zero_less_numeral)
  with True show ?thesis
    by (simp add: pow16_def)
next
  case False
  then have "real_of_int e = - real (nat (- e))"
    by simp
  then have "(16 :: real) powr real_of_int e = inverse (16 powr real (nat (- e)))"
    by (simp only: powr_minus)
  also have "(16 :: real) powr real (nat (- e)) = 16 ^ nat (- e)"
    by (rule powr_realpow) simp
  finally show ?thesis
    using False by (simp add: pow16_def inverse_eq_divide)
qed

text \<open>
  Claim C6. \<open>ibm2ieee\<close> maps the bytes \<open>00 00 00 00\<close> to 0.0 and the bytes \<open>C2 64 00 00\<close> to
  -100.0, and on every four bytes its value is sign times 16 to the power exponent minus 64
  times mantissa over 16 to the power 6, with the sign and the 7-bit exponent taken from the
  first byte and the 24-bit mantissa from the other three. The power is the power of the
  real numbers, \<open>powr\<close>; three more patterns show an exponent of 64, one below 64 and the
  value 1.
\<close>

theorem ibm2ieee_examples_and_formula:
  "ibm2ieee [0x00, 0x00, 0x00, 0x00] = Inr 0
   \<and> ibm2ieee [0xC2, 0x64, 0x00, 0x00] = Inr (- 100)
   \<and> ibm2ieee [0x41, 0x10, 0x00, 0x00] = Inr 1
   \<and> ibm2ieee [0x40, 0x80, 0x00, 0x00] = Inr (1 / 2)
   \<and> ibm2ieee [0x3F, 0x10, 0x00, 0x00] = Inr (1 / 256)
   \<and> ibm2ieee [e, a, b, c] =
       Inr ((if uint e < 128 then 1 else - 1)
            * 16 powr (real_of_int (uint e mod 128) - 64)
            * ((real (unat a) * 16 ^ 4 + real (unat b) * 16 ^ 2 + real (unat c)) / 16 ^ 6))"
proof -
  have "ibm2ieee [0x00, 0x00, 0x00, 0x00] = Inr 0"
    by simp
  moreover have "ibm2ieee [0xC2, 0x64, 0x00, 0x00] = Inr (- 100)"
    by (simp add: pow16_def)
  moreover have "ibm2ieee [0x41, 0x10, 0x00, 0x00] = Inr 1"
    by (simp add: pow16_def)
  moreover have "ibm2ieee [0x40, 0x80, 0x00, 0x00] = Inr (1 / 2)"
    by (simp add: pow16_def)
  moreover have "ibm2ieee [0x3F, 0x10, 0x00, 0x00] = Inr (1 / 256)"
    by (simp add: pow16_def)
  moreover have "ibm2ieee [e, a, b, c] =
       Inr ((if uint e < 128 then 1 else - 1)
            * 16 powr (real_of_int (uint e mod 128) - 64)
            * ((real (unat a) * 16 ^ 4 + real (unat b) * 16 ^ 2 + real (unat c)) / 16 ^ 6))"
  proof -
    have "real_of_int (uint e mod 128) - 64 = real_of_int (uint e mod 128 - 64)"
      by simp
    then show ?thesis
      unfolding ibm2ieee.simps Let_def exponent_bits pow16_powr
      by (simp add: not_le)
  qed
  ultimately show ?thesis
    by blast
qed

section \<open>The element types accepted for writing\<close>

text \<open>
  Claim C8, as stated: a grid whose element type is outside int32, int16, float32, uint8
  and float64 is refused, and every grid with one of these is accepted. The code contradicts
  both halves: it accepts int8, and it refuses uint8.
\<close>

theorem getDSF_fromDataType_set_counterexample:
  "\<not> (\<forall>t. (t \<notin> {np_int32, np_int16, np_float32, np_uint8, np_float64}
               \<longrightarrow> (\<exists>e. getDSF_fromDataType t = Inl e))
          \<and> (t \<in> {np_int32, np_int16, np_float32, np_uint8, np_float64}
               \<longrightarrow> (\<exists>r. getDSF_fromDataType t = Inr r)))"
proof
  assume "\<forall>t. (t \<notin> {np_int32, np_int16, np_float32, np_uint8, np_float64}
               \<longrightarrow> (\<exists>e. getDSF_fromDataType t = Inl e))
          \<and> (t \<in> {np_int32, np_int16, np_float32, np_uint8, np_float64}
               \<longrightarrow> (\<exists>r. getDSF_fromDataType t = Inr r))"
  then have "\<exists>r. getDSF_fromDataType np_uint8 = Inr r"
    by blast
  then show False
    by (simp add: getDSF_fromDataType_def)
qed

text \<open>
  Claim C8, amended: \<open>getDSF_fromDataType\<close> returns a format code for exactly the element
  types int32 (2), int16 (3), float32 (5), int8 (8) and float64 (5, after the warning that
  the data are cast to float32), and raises \<open>TypeError\<close> for every other element type.
\<close>

theorem getDSF_fromDataType_accepts:
  "getDSF_fromDataType t =
     (if t = np_float64 then Inr ([''Cast data type float64 to float32.''], 5)
      else if t = np_int32 then Inr ([], 2)
      else if t = np_int16 then Inr ([], 3)
      else if t = np_float32 then Inr ([], 5)
      else if t = np_int8 then Inr ([], 8)
      else Inl (TypeError_dtype t))"
  by (simp add: getDSF_fromDataType_def)

section \<open>Negative 8-bit samples\<close>

lemma struct_pack1_fmt_B_error:
  "struct_pack1 fp fmt_B v = Inl e \<Longrightarrow> e = struct_error"
  by (cases v) (simp_all add: pack_int_def split: if_splits)

lemma struct_pack1_fmt_B_negative:
  "is_negative v \<Longrightarrow> struct_pack1 fp fmt_B v = Inl struct_error"
  by (cases v) (simp_all add: pack_int_def)

lemma pack_all_fmt_B_negative:
  assumes "v \<in> set vs" "is_negative v"
  shows "pack_all fp fmt_B vs = Inl struct_error"
  using assms
proof (induction vs)
  case Nil
  then show ?case by simp
next
  case (Cons a vs)
  show ?case
  proof (cases "struct_pack1 fp fmt_B a")
    case (Inl e)
    then have "struct_pack1 fp fmt_B a = Inl struct_error"
      using struct_pack1_fmt_B_error [of fp a e] by simp
    then show ?thesis by simp
  next
    case (Inr b)
    then have "\<not> is_negative a"
      using struct_pack1_fmt_B_negative [of a fp] by auto
    with Cons.prems have "v \<in> set vs"
      by auto
    with Cons.IH Cons.prems(2) have "pack_all fp fmt_B vs = Inl struct_error"
      by simp
    with Inr show ?thesis by simp
  qed
qed

lemma write_traces_negative:
  assumes "j \<in> set js" "j < snd (shape Data)" "row \<in> set (rows Data)" "is_negative (row ! j)"
  shows "\<exists>e. write_traces fp Data STH ns fmt_B T js index fl = Inl e"
  using assms(1)
proof (induction js arbitrary: index fl)
  case Nil
  then show ?case by simp
next
  case (Cons i js)
  show ?case
  proof (cases "i = j")
    case True
    have col: "column Data j = Inr (map (\<lambda>row. row ! j) (rows Data))"
      using assms(2) by (simp add: column_def)
    have "row ! j \<in> set (map (\<lambda>row. row ! j) (rows Data))"
      using assms(3) by auto
    then have "pack_all fp fmt_B (map (\<lambda>row. row ! j) (rows Data)) = Inl struct_error"
      using assms(4) by (rule pack_all_fmt_B_negative)
    then have "struct_pack fp fmt_B ns (map (\<lambda>row. row ! j) (rows Data)) = Inl struct_error"
      by (simp add: struct_pack_def)
    then show ?thesis
      unfolding True write_traces.simps col
      by (cases "pack_STH fp STH j STH_def") simp_all
  next
    case False
    with Cons.prems have "j \<in> set js" by simp
    then have "\<And>index fl. \<exists>e. write_traces fp Data STH ns fmt_B T js index fl = Inl e"
      by (rule Cons.IH)
    then show ?thesis
      unfolding write_traces.simps by (simp add: e_bind_fails_iff)
  qed
qed

lemma default_header_revision:
  "getDefaultSegyHeader ''SegyFormatRevisionNumber'' = Some (PyInt 100)"
  by (simp add: getDefaultSegyHeader_def SH_def_def)

lemma write_header_keys:
  "setSegyHeaders getDefaultSegyHeader (Some nt) (Some ns) (Some dt) (Some dsf) ''SegyFormatRevisionNumber'' = Some (PyInt 100)"
  "setSegyHeaders getDefaultSegyHeader (Some nt) (Some ns) (Some dt) (Some dsf) ''DataSampleFormat'' = Some (PyInt dsf)"
  "setSegyHeaders getDefaultSegyHeader (Some nt) (Some ns) (Some dt) (Some dsf) ''ntraces'' = Some (PyInt nt)"
  "setSegyHeaders getDefaultSegyHeader (Some nt) (Some ns) (Some dt) (Some dsf) ''ns'' = Some (PyInt ns)"
  "setSegyHeaders getDefaultSegyHeader (Some nt) (Some ns) (Some dt) (Some dsf) ''dt'' = Some (PyInt dt)"
  by (simp_all add: setSegyHeaders_def default_header_revision)

lemma write_header_revno:
  "getRevisionNumber (setSegyHeaders getDefaultSegyHeader (Some nt) (Some ns) (Some dt) (Some dsf)) = Inr 1"
  by (simp add: getRevisionNumber_def write_header_keys)

lemma has_negativeD:
  assumes "wf_grid Data" "has_negative Data"
  obtains row j where "row \<in> set (rows Data)" "j < snd (shape Data)" "is_negative (row ! j)"
proof -
  from assms(2) obtain row v where row: "row \<in> set (rows Data)" and v: "v \<in> set row" "is_negative v"
    unfolding has_negative_def list_ex_iff by blast
  from v(1) obtain j where j: "j < length row" "row ! j = v"
    unfolding in_set_conv_nth by blast
  from assms(1) row have "length row = snd (shape Data)"
    unfolding wf_grid_def list_all_iff by blast
  with j v(2) row show thesis
    by (intro that [of row j]) simp_all
qed

text \<open>
  Claim C10. A grid of element type int8 that holds a negative sample cannot be written:
  \<open>writeSegy\<close> raises an exception whatever the sample interval, the textual header and the
  trace-header overrides are. Format code 8 selects the type \<open>'uchar'\<close> and with it the
  \<open>struct\<close> character \<open>B\<close>, and packing the samples of a trace that holds the negative value
  raises \<open>struct.error\<close>.
\<close>

theorem int8_negative_not_writable:
  assumes "elem_type Data = np_int8" and "wf_grid Data" and "has_negative Data"
  shows "(\<exists>e. writeSegy fp Data dt STFH mySTH = Inl e)
    \<and> (\<exists>j col. column Data j = Inr col
          \<and> struct_pack fp fmt_B (int (fst (shape Data))) col = Inl struct_error)"
proof -
  from assms(2,3) obtain row j where row: "row \<in> set (rows Data)"
    and j: "j < snd (shape Data)" and neg: "is_negative (row ! j)"
    by (rule has_negativeD)
  obtain ns nt where shape: "shape Data = (ns, nt)"
    by (cases "shape Data") auto
  have jn: "j \<in> set [0..<nt]"
    using j shape by simp
  have traces: "\<exists>e. write_traces fp Data STH (int ns) fmt_B T [0..<nt] index fl = Inl e"
    for STH T index fl
    using jn j row neg by (rule write_traces_negative)
  have "\<exists>e. writeSegyStructure fp Data STFH
      (setSegyHeaders getDefaultSegyHeader (Some (int nt)) (Some (int ns)) (Some dt) (Some 8)) STH = Inl e"
    for STH
    unfolding writeSegyStructure_def
    by (simp add: e_bind_fails_iff write_header_keys write_header_revno lookup2_def
        DataSampleFormat_descr_def DataSampleFormat_datatype_def DataSampleFormat_bps_def
        traces del: upt_Suc)
  then have first: "\<exists>e. writeSegy fp Data dt STFH mySTH = Inl e"
    unfolding writeSegy_def shape
    by (simp add: getDSF_fromDataType_def assms(1) e_bind_fails_iff)
  have col: "column Data j = Inr (map (\<lambda>row. row ! j) (rows Data))"
    using j by (simp add: column_def)
  have len: "length (rows Data) = ns"
    using assms(2) shape by (simp add: wf_grid_def)
  have "row ! j \<in> set (map (\<lambda>row. row ! j) (rows Data))"
    using row by auto
  then have "pack_all fp fmt_B (map (\<lambda>row. row ! j) (rows Data)) = Inl struct_error"
    using neg by (rule pack_all_fmt_B_negative)
  then have "struct_pack fp fmt_B (int (fst (shape Data))) (map (\<lambda>row. row ! j) (rows Data)) = Inl struct_error"
    by (simp add: struct_pack_def)
  with col first show ?thesis
    by blast
qed

theorem int8_negative_not_writable_witness:
  "\<forall>fp. (\<exists>e. writeSegy fp \<lparr>elem_type = np_int8, shape = (1, 1), rows = [[IntV (- 1)]]\<rparr> 1000 [] None = Inl e)
    \<and> (\<exists>j col. column \<lparr>elem_type = np_int8, shape = (1, 1), rows = [[IntV (- 1)]]\<rparr> j = Inr col
          \<and> struct_pack fp fmt_B (int (fst (shape \<lparr>elem_type = np_int8, shape = (1, 1), rows = [[IntV (- 1)]]\<rparr>))) col
              = Inl struct_error)"
proof
  fix fp
  show "(\<exists>e. writeSegy fp \<lparr>elem_type = np_int8, shape = (1, 1), rows = [[IntV (- 1)]]\<rparr> 1000 [] None = Inl e)
    \<and> (\<exists>j col. column \<lparr>elem_type = np_int8, shape = (1, 1), rows = [[IntV (- 1)]]\<rparr> j = Inr col
          \<and> struct_pack fp fmt_B (int (fst (shape \<lparr>elem_type = np_int8, shape = (1, 1), rows = [[IntV (- 1)]]\<rparr>))) col
              = Inl struct_error)"
    by (rule int8_negative_not_writable) (simp_all add: wf_grid_def has_negative_def)
qed

section \<open>The trace headers\<close>

lemma STH_def_fields:
  "list_all (\<lambda>(key, pos, t). 0 \<le> pos \<and> np_understood t
      \<and> (\<exists>ct. dtype2ctype t = Some ct \<and> pos + int (ctype_size ct) \<le> 240)) STH_def"
  by (simp add: STH_def_def)

lemma STH_def_distinct: "distinct (map fst STH_def)"
  by (simp add: STH_def_def)

lemma STH_def_dt: "map_of STH_def ''dt'' = Some (116, uint16)"
  by (simp add: STH_def_def)

lemma STH_def_has_dt: "''dt'' \<in> set (map fst STH_def)"
  by (simp add: STH_def_def)

lemma STH_def_field:
  assumes "map_of STH_def name = Some (pos, t)"
  obtains ct where "0 \<le> pos" "np_understood t" "dtype2ctype t = Some ct"
    "pos + int (ctype_size ct) \<le> 240"
proof -
  from assms have "(name, pos, t) \<in> set STH_def"
    by (rule map_of_SomeD)
  with STH_def_fields show thesis
    by (auto simp: list_all_iff intro: that)
qed

text \<open>
  A field of the header of trace \<open>j\<close>, when the trace lies inside the data and the 240
  bytes of its header, at their position modulo 65536, end below 65536.
\<close>

lemma field_ok:
  fixes T pos nt j :: int
  assumes T: "240 \<le> T" and pos: "0 \<le> pos" "pos + int cs \<le> 240"
    and infile: "3600 + nt * T \<le> int len" and j: "0 \<le> j" "j < nt"
    and base: "(3600 + T * j) mod 65536 + 240 \<le> 65535"
  shows "(3600 + T * j + pos) mod 65536 = (3600 + T * j) mod 65536 + pos"
    and "nat ((3600 + T * j + pos) mod 65536) + cs \<le> 65535"
    and "nat ((3600 + T * j + pos) mod 65536) + cs \<le> len"
proof -
  define b where "b = (3600 + T * j) mod 65536"
  have b0: "0 \<le> b"
    unfolding b_def by simp
  have Tj: "0 \<le> T * j"
    using T j by simp
  have ble: "b \<le> 3600 + T * j"
    unfolding b_def using Tj by (intro zmod_le_nonneg_dividend) simp
  have "(3600 + T * j + pos) mod 65536 = (b + pos) mod 65536"
    unfolding b_def by (simp add: mod_add_left_eq)
  also have "\<dots> = b + pos"
    using b0 pos base unfolding b_def [symmetric] by (intro mod_pos_pos_trivial) simp_all
  finally show eq: "(3600 + T * j + pos) mod 65536 = (3600 + T * j) mod 65536 + pos"
    unfolding b_def .
  show "nat ((3600 + T * j + pos) mod 65536) + cs \<le> 65535"
    unfolding eq using b0 pos base unfolding b_def [symmetric] by linarith
  have "j + 1 \<le> nt"
    using j by simp
  then have "T * (j + 1) \<le> T * nt"
    using T by (intro mult_left_mono) simp_all
  then have "T * j + T \<le> nt * T"
    by (simp add: algebra_simps)
  then have "b + pos + int cs \<le> int len"
    using ble pos T infile by linarith
  then show "nat ((3600 + T * j + pos) mod 65536) + cs \<le> len"
    unfolding eq b_def [symmetric] using b0 pos by linarith
qed

lemma small_file_base:
  fixes T nt j :: int
  assumes "240 \<le> T" "3600 + nt * T \<le> int len" "0 \<le> j" "j < nt" "len \<le> 65535"
  shows "(3600 + T * j) mod 65536 + 240 \<le> 65535"
proof -
  have Tj: "0 \<le> T * j"
    using assms by simp
  have "(3600 + T * j) mod 65536 \<le> 3600 + T * j"
    using Tj by (intro zmod_le_nonneg_dividend) simp
  moreover have "T * (j + 1) \<le> T * nt"
    using assms by (intro mult_left_mono) simp_all
  then have "T * j + T \<le> nt * T"
    by (simp add: algebra_simps)
  ultimately show ?thesis
    using assms by linarith
qed

lemma trace_count_bound:
  assumes "getSegyHeader fp data = Inr SH" "SH ''ntraces'' = Some (PyInt nt)"
    "SH ''ns'' = Some (NpInt np_u16 ns)" "getBytePerSample SH = Inr bps"
    "240 + ns * bps \<le> 65535"
  shows "nt \<le> 65535" and "240 \<le> 240 + ns * bps"
proof -
  note facts = whole_traces_in_file [OF assms]
  have nb: "0 \<le> ns * bps"
    using facts(1,2) by simp
  then show T: "240 \<le> 240 + ns * bps"
    by simp
  have "nt * 1 \<le> nt * (240 + ns * bps)"
    using facts(8) T by (intro mult_left_mono) simp_all
  with facts(4,7) show "nt \<le> 65535"
    by simp
qed

lemma np_fill_u16:
  "0 \<le> v \<Longrightarrow> v < 65536 \<Longrightarrow> np_fill fp uint16 (NpInt np_u16 v) = Inr (IntV v)"
  by simp



lemma single_trace_field:
  assumes hdr: "SH ''ntraces'' = Some (PyInt nt)" "SH ''ns'' = Some (NpInt np_u16 ns)"
      "getBytePerSample SH = Inr bps"
    and T: "240 \<le> 240 + ns * bps"
    and infile: "3600 + nt * (240 + ns * bps) \<le> int (length data)"
    and i: "1 \<le> i" "i \<le> nt" "nt \<le> 65535"
    and base: "(3600 + (240 + ns * bps) * (i - 1)) mod 65536 + 240 \<le> 65535"
    and fld: "map_of STH_def name = Some (pos, t)"
  obtains ct where "dtype2ctype t = Some ct"
    and "getSegyTraceHeader fp SH data name (Some STH_def) i =
      (if name = ''dt'' then Inl IndexError
       else Inr (Scalar (field_at ct data
              (nat ((3600 + (240 + ns * bps) * (i - 1)) mod 65536 + pos)))))"
proof -
  from fld obtain ct where pos: "0 \<le> pos" and und: "np_understood t"
    and ct: "dtype2ctype t = Some ct" and inside: "pos + int (ctype_size ct) \<le> 240"
    by (rule STH_def_field)
  have j: "0 \<le> i - 1" "i - 1 < nt"
    using i by simp_all
  note ok = field_ok [OF T pos inside infile j base]
  have fld': "map_of (case Some STH_def of None \<Rightarrow> STH_def | Some d \<Rightarrow> d) name = Some (pos, t)"
    using fld by simp
  have pos16: "pos \<le> 65535"
    using inside by simp
  have i16: "i \<le> 65536"
    using i by simp
  have "getSegyTraceHeader fp SH data name (Some STH_def) i =
      (if name = ''dt'' then Inl IndexError
       else Inr (Scalar (field_at ct data
              (nat ((3600 + (240 + ns * bps) * (i - 1)) mod 65536 + pos)))))"
    using getSegyTraceHeader_single [where fp = fp and data = data,
        OF hdr fld' ct und pos pos16 i(1) i16] ok(2,3)
    unfolding ok(1) by simp
  with ct show thesis
    by (rule that)
qed

lemma read_headers_single_dt:
  assumes hdr: "SH ''ntraces'' = Some (PyInt nt)" "SH ''ns'' = Some (NpInt np_u16 ns)"
      "getBytePerSample SH = Inr bps"
    and T: "240 \<le> 240 + ns * bps"
    and infile: "3600 + nt * (240 + ns * bps) \<le> int (length data)"
    and i: "1 \<le> i" "i \<le> nt" "nt \<le> 65535"
    and base: "(3600 + (240 + ns * bps) * (i - 1)) mod 65536 + 240 \<le> 65535"
    and keys: "set keys \<subseteq> fst ` set STH_def" "''dt'' \<in> set keys"
  shows "read_headers fp SH data STH_def i keys = Inl IndexError"
  using keys
proof (induction keys)
  case Nil
  then show ?case by simp
next
  case (Cons key keys)
  from Cons.prems(1) have "map_of STH_def key \<noteq> None"
    by (simp add: map_of_eq_None_iff)
  then obtain pos t where fld: "map_of STH_def key = Some (pos, t)"
    by auto
  obtain ct where g: "getSegyTraceHeader fp SH data key (Some STH_def) i =
      (if key = ''dt'' then Inl IndexError
       else Inr (Scalar (field_at ct data
              (nat ((3600 + (240 + ns * bps) * (i - 1)) mod 65536 + pos)))))"
    using single_trace_field [OF hdr T infile i base fld, of fp] by blast
  show ?case
  proof (cases "key = ''dt''")
    case True
    then show ?thesis
      unfolding read_headers.simps g by simp
  next
    case False
    with Cons.prems have "read_headers fp SH data STH_def i keys = Inl IndexError"
      by (intro Cons.IH) auto
    with False show ?thesis
      unfolding read_headers.simps g by simp
  qed
qed

lemma read_headers_never_returns:
  assumes "i \<noteq> 0" "''dt'' \<in> set keys"
  shows "\<exists>e. read_headers fp SH data TH i keys = Inl e"
  using assms(2)
proof (induction keys)
  case Nil
  then show ?case by simp
next
  case (Cons key keys)
  show ?case
  proof (cases "key = ''dt''")
    case True
    obtain e where "getSegyTraceHeader fp SH data ''dt'' (Some TH) i = Inl e"
      using getSegyTraceHeader_dt_never_returns [OF assms(1)] by blast
    then show ?thesis
      unfolding True read_headers.simps by simp
  next
    case False
    with Cons.prems have "\<exists>e. read_headers fp SH data TH i keys = Inl e"
      by (intro Cons.IH) auto
    then show ?thesis
      unfolding read_headers.simps by (auto simp: e_bind_fails_iff)
  qed
qed

lemma readSegyTrace_never_returns:
  assumes "i \<noteq> 0"
  shows "\<exists>e. readSegyTrace fp data None i = Inl e"
proof -
  have "\<exists>e. getSegyTraceHeaders fp SH data None i = Inl e" for SH
    unfolding getSegyTraceHeaders_def
    using read_headers_never_returns [OF assms STH_def_has_dt] by simp
  then have hs: "\<exists>e. getSegyTraceHeaders fp SH data None i = Inl e" for SH .
  show ?thesis
  proof (cases "getSegyHeader fp data")
    case (Inl e)
    then show ?thesis
      unfolding readSegyTrace_def by simp
  next
    case (Inr SH)
    from hs [of SH] obtain e where "getSegyTraceHeaders fp SH data None i = Inl e" ..
    then show ?thesis
      unfolding readSegyTrace_def Inr by simp
  qed
qed

text \<open>
  Claim C5 asks that reading one trace returns the value of every field of the schema. The
  schema holds the field \<open>dt\<close>, and for it \<open>getSegyTraceHeader\<close> evaluates \<open>TH_value[0]\<close> on the
  scalar read for one trace. For every trace of a file whose header decodes, reading the
  field \<open>dt\<close> of the trace, and with it \<open>readSegyTrace\<close> with the default schema, raises
  \<open>IndexError\<close>; here the trace size is taken to fit into a uint16 and the 240 bytes of the
  header of the trace, at their position modulo 65536, to end below 65536 (as they do in
  every buffer of at most 65535 bytes), so that no earlier step raises. Whatever the header
  dictionary, the data and the schema are, reading \<open>dt\<close> for one trace never returns a value.
\<close>

theorem readSegyTrace_dt_IndexError:
  assumes "getSegyHeader fp data = Inr SH" and "SH ''ntraces'' = Some (PyInt nt)"
    and "1 \<le> i" and "i \<le> nt"
    and "SH ''ns'' = Some (NpInt np_u16 ns)" and "getBytePerSample SH = Inr bps"
    and "240 + ns * bps \<le> 65535"
    and "(3600 + (240 + ns * bps) * (i - 1)) mod 65536 + 240 \<le> 65535"
  shows "getSegyTraceHeader fp SH data ''dt'' None i = Inl IndexError
    \<and> readSegyTrace fp data None i = Inl IndexError
    \<and> (\<exists>e. getSegyTraceHeader fp SH' data' ''dt'' TH_dict i = Inl e)
    \<and> (\<exists>e. readSegyTrace fp data' None i = Inl e)"
proof -
  note facts = whole_traces_in_file [OF assms(1,2,5,6,7)]
  note bound = trace_count_bound [OF assms(1,2,5,6,7)]
  have a: "getSegyTraceHeader fp SH data ''dt'' (Some STH_def) i = Inl IndexError"
    using single_trace_field [OF assms(2,5,6) bound(2) facts(4) assms(3,4) bound(1) assms(8) STH_def_dt,
        of fp]
    by auto
  have "getSegyTraceHeader fp SH data ''dt'' None i = getSegyTraceHeader fp SH data ''dt'' (Some STH_def) i"
    by (simp add: getSegyTraceHeader_def)
  with a have one: "getSegyTraceHeader fp SH data ''dt'' None i = Inl IndexError"
    by simp
  have "getSegyTraceHeaders fp SH data None i = Inl IndexError"
    unfolding getSegyTraceHeaders_def
    using read_headers_single_dt [OF assms(2,5,6) bound(2) facts(4) assms(3,4) bound(1) assms(8),
        of "map fst STH_def" fp]
      STH_def_has_dt by simp
  then have two: "readSegyTrace fp data None i = Inl IndexError"
    unfolding readSegyTrace_def assms(1) by simp
  have ne: "i \<noteq> 0"
    using assms(3) by simp
  from one two getSegyTraceHeader_dt_never_returns [OF ne] readSegyTrace_never_returns [OF ne]
  show ?thesis
    by blast
qed

theorem readSegyTrace_dt_IndexError_witness:
  "\<forall>fp. readSegyTrace fp one_trace_file None 1 = Inl IndexError"
proof
  fix fp
  show "readSegyTrace fp one_trace_file None 1 = Inl IndexError"
    using readSegyTrace_dt_IndexError [of fp one_trace_file
        "(decoded_SH one_trace_file)(''ntraces'' \<mapsto> PyInt 1)" 1 1 1 4, OF one_trace_file_header _ _ _ _ one_trace_file_bps]
    by (simp add: decoded_SH_keys one_trace_file_fields)
qed

end
